theory Spec2Isabelle
  imports Complex_Main
begin

section \<open>JavaScript numbers\<close>

text \<open>
  Money, fares and counters are JavaScript values of type \<^verbatim>\<open>Number\<close>, that is IEEE 754
  doubles. A finite double is modelled by the rational number it denotes, the two
  infinities are values of their own, and \<^verbatim>\<open>NaN\<close> is not a value of the type: an
  operation whose result is \<^verbatim>\<open>NaN\<close> returns \<open>None\<close>, and no stored path holds \<^verbatim>\<open>NaN\<close>,
  because the cast of \<^verbatim>\<open>NaN\<close> to a path of type Number fails. The two zeros \<^verbatim>\<open>+0\<close> and
  \<^verbatim>\<open>-0\<close> are one value; the handlers only add, subtract, multiply and compare, which do
  not tell them apart.

  The exponent of a positive rational is the \<open>e\<close> with \<open>2^e \<le> x < 2^(e+1)\<close>, computed from
  the length in bits of \<open>\<lfloor>x\<rfloor>\<close>, or of \<open>\<lceil>1/x\<rceil> - 1\<close> below 1.
\<close>

function bits :: "nat \<Rightarrow> nat" where
  "bits n = (if n = 0 then 0 else Suc (bits (n div 2)))"
  by pat_completeness auto
termination
  by (relation "measure id") auto

declare bits.simps [simp del]

definition expo :: "rat \<Rightarrow> int" where
  "expo x = (if 1 \<le> x then int (bits (nat \<lfloor>x\<rfloor>)) - 1
             else - int (bits (nat (\<lceil>1 / x\<rceil> - 1))))"

text \<open>Rounding to the nearest integer, a tie going to the even one.\<close>

definition round_half_even :: "rat \<Rightarrow> int" where
  "round_half_even m =
     (let f = \<lfloor>m\<rfloor>; d = m - of_int f
      in if d < 1 / 2 then f else if 1 / 2 < d then f + 1
         else if even f then f else f + 1)"

text \<open>
  The spacing of the doubles around \<open>x\<close>: 52 binary places below the exponent of \<open>x\<close>,
  and \<open>2^-1074\<close> in the subnormal range. \<open>rne\<close> rounds a rational to the nearest
  multiple of that spacing, ties to even (the rounding of every arithmetic operation),
  without regard to overflow.
\<close>

definition quantum :: "rat \<Rightarrow> rat" where
  "quantum x = 2 powi (max (expo \<bar>x\<bar>) (- 1022) - 52)"

definition rne :: "rat \<Rightarrow> rat" where
  "rne x = (if x = 0 then 0
            else sgn x * (of_int (round_half_even (\<bar>x\<bar> / quantum x)) * quantum x))"

text \<open>The largest finite double, and the rationals that are finite doubles.\<close>

definition max_double :: rat where
  "max_double = (2 ^ 53 - 1) * 2 ^ 971"

definition is_double :: "rat \<Rightarrow> bool" where
  "is_double x \<longleftrightarrow> \<bar>x\<bar> \<le> max_double \<and> rne x = x"

typedef double = "{x :: rat. is_double x}"
  morphisms val mk_double
  by (rule exI [of _ 0]) (simp add: is_double_def rne_def max_double_def)

datatype number = Finite double | PosInfinity | NegInfinity

text \<open>
  \<open>dbl x\<close> is the Number nearest to the rational \<open>x\<close>, an infinity when the rounded value
  exceeds the largest double. It is also how a decimal literal is read
  (\<^verbatim>\<open>JSON.parse\<close>), so \<open>dbl (7 / 10)\<close> is the Number written \<^verbatim>\<open>0.7\<close>.
\<close>

definition dbl :: "rat \<Rightarrow> number" where
  "dbl x =
     (let y = rne x
      in if max_double < y then PosInfinity
         else if y < - max_double then NegInfinity
         else Finite (mk_double y))"

text \<open>The order of the Numbers, and zero.\<close>

instantiation number :: "{zero, linorder}"
begin

definition zero_number :: number where
  "zero_number = Finite (mk_double 0)"

definition less_eq_number :: "number \<Rightarrow> number \<Rightarrow> bool" where
  "less_eq_number a b =
     (case (a, b) of
        (NegInfinity, _) \<Rightarrow> True
      | (_, PosInfinity) \<Rightarrow> True
      | (Finite x, Finite y) \<Rightarrow> val x \<le> val y
      | _ \<Rightarrow> False)"

definition less_number :: "number \<Rightarrow> number \<Rightarrow> bool" where
  "less_number a b \<longleftrightarrow> a \<le> b \<and> \<not> b \<le> (a :: number)"

instance
proof
  fix x y z :: number
  show "x < y \<longleftrightarrow> x \<le> y \<and> \<not> y \<le> x"
    by (simp add: less_number_def)
  show "x \<le> x"
    by (cases x) (simp_all add: less_eq_number_def)
  show "x \<le> y \<Longrightarrow> y \<le> z \<Longrightarrow> x \<le> z"
    by (cases x; cases y; cases z) (simp_all add: less_eq_number_def)
  show "x \<le> y \<Longrightarrow> y \<le> x \<Longrightarrow> x = y"
    by (cases x; cases y) (simp_all add: less_eq_number_def val_inject)
  show "x \<le> y \<or> y \<le> x"
    by (cases x; cases y) (auto simp: less_eq_number_def)
qed

end

text \<open>
  The arithmetic of \<^verbatim>\<open>+\<close>, \<^verbatim>\<open>-\<close> and \<^verbatim>\<open>*\<close> on Numbers: the exact result of two finite
  operands, rounded; the rules of the infinities; \<open>None\<close> for \<^verbatim>\<open>NaN\<close>
  (\<^verbatim>\<open>Infinity - Infinity\<close>, \<^verbatim>\<open>0 * Infinity\<close>).
\<close>

fun js_neg :: "number \<Rightarrow> number" where
  "js_neg (Finite a) = Finite (mk_double (- val a))"
| "js_neg PosInfinity = NegInfinity"
| "js_neg NegInfinity = PosInfinity"

fun js_add :: "number \<Rightarrow> number \<Rightarrow> number option" where
  "js_add (Finite a) (Finite b) = Some (dbl (val a + val b))"
| "js_add PosInfinity NegInfinity = None"
| "js_add NegInfinity PosInfinity = None"
| "js_add PosInfinity b = Some PosInfinity"
| "js_add NegInfinity b = Some NegInfinity"
| "js_add (Finite a) b = Some b"

definition js_sub :: "number \<Rightarrow> number \<Rightarrow> number option" where
  "js_sub a b = js_add a (js_neg b)"

definition infinite_times :: "bool \<Rightarrow> number \<Rightarrow> number option" where
  "infinite_times positive b =
     (if b = 0 then None
      else if (0 < b) = positive then Some PosInfinity else Some NegInfinity)"

fun js_mul :: "number \<Rightarrow> number \<Rightarrow> number option" where
  "js_mul (Finite a) (Finite b) = Some (dbl (val a * val b))"
| "js_mul PosInfinity b = infinite_times True b"
| "js_mul NegInfinity b = infinite_times False b"
| "js_mul a PosInfinity = infinite_times True a"
| "js_mul a NegInfinity = infinite_times False a"

text \<open>
  A JavaScript expression of type number may be \<^verbatim>\<open>NaN\<close>, and a path of a document that
  was not loaded reads as \<^verbatim>\<open>undefined\<close>: both are \<open>None\<close> in \<open>number option\<close>. Arithmetic
  with either is \<^verbatim>\<open>NaN\<close>, and a comparison with either is false.
\<close>

definition js_plus :: "number option \<Rightarrow> number option \<Rightarrow> number option" where
  "js_plus x y =
     (case (x, y) of (Some a, Some b) \<Rightarrow> js_add a b | _ \<Rightarrow> None)"

definition js_minus :: "number option \<Rightarrow> number option \<Rightarrow> number option" where
  "js_minus x y =
     (case (x, y) of (Some a, Some b) \<Rightarrow> js_sub a b | _ \<Rightarrow> None)"

definition js_times :: "number option \<Rightarrow> number option \<Rightarrow> number option" where
  "js_times x y =
     (case (x, y) of (Some a, Some b) \<Rightarrow> js_mul a b | _ \<Rightarrow> None)"

definition js_less :: "number option \<Rightarrow> number option \<Rightarrow> bool" where
  "js_less x y =
     (case (x, y) of (Some a, Some b) \<Rightarrow> a < b | _ \<Rightarrow> False)"

text \<open>The rational number that a finite Number denotes.\<close>

fun rational_of :: "number \<Rightarrow> rat option" where
  "rational_of (Finite x) = Some (val x)"
| "rational_of PosInfinity = None"
| "rational_of NegInfinity = None"

text \<open>The Number is finite.\<close>

fun finite_number :: "number \<Rightarrow> bool" where
  "finite_number (Finite x) = True"
| "finite_number PosInfinity = False"
| "finite_number NegInfinity = False"

section \<open>Data model\<close>

text \<open>
  The ticketing backend keeps users, stations, fares and trips in one document store.
  The embedding follows the Mongoose schemas of \<^verbatim>\<open>models/User.js\<close>,
  \<^verbatim>\<open>models/Station.js\<close>, \<^verbatim>\<open>models/Fare.js\<close> and \<^verbatim>\<open>models/Trip.js\<close>.

  \<^item> An ObjectId is a natural number.
  \<^item> A \<^verbatim>\<open>Date\<close> is its number of milliseconds since the epoch, an integer.
  \<^item> Every call of \<^verbatim>\<open>new Date()\<close> or \<^verbatim>\<open>Date.now()\<close> is a clock reading that the
    function receives as an argument, one argument for each call in the source.
\<close>

type_synonym oid = nat
type_synonym date = int

subsection \<open>Station (stationSchema)\<close>

record station =
  st_name :: string
  st_isActive :: bool

subsection \<open>Fare (fareSchema)\<close>

record fare =
  f_fromStation :: oid
  f_toStation :: oid
  f_fare :: number
  distance :: number
  duration :: number
  isActive :: bool
  fareType :: string
  effectiveFrom :: date
  effectiveTo :: "date option"

subsection \<open>User (userSchema)\<close>

record user =
  fullName :: string
  phoneNumber :: string
  balance :: number
  totalTrips :: number
  totalExpense :: number

subsection \<open>Trip (tripSchema)\<close>

datatype status = Created | Used | Expired | Cancelled

datatype paymentStatus = Pending | Completed | Failed

record trip =
  tripCode :: string
  t_user :: oid
  t_fromStation :: oid
  t_toStation :: oid
  t_fare :: number
  numberOfPassengers :: int
  totalAmount :: number
  status :: status
  usedAt :: "date option"
  expiresAt :: date
  journeyStartTime :: "date option"
  journeyEndTime :: "date option"
  paymentMethod :: string
  paymentStatus :: paymentStatus

subsection \<open>The document store\<close>

text \<open>
  Users and stations are found by \<^verbatim>\<open>_id\<close>. Fares and trips are kept in insertion order,
  which is the order in which \<^verbatim>\<open>findOne\<close> meets them; the \<^verbatim>\<open>_id\<close> of a trip is its
  position.
\<close>

record store =
  users :: "oid \<Rightarrow> user option"
  stations :: "oid \<Rightarrow> station option"
  fares :: "fare list"
  trips :: "trip list"

subsection \<open>Exceptions and responses\<close>

text \<open>
  \<open>Error m\<close> is \<^verbatim>\<open>new Error(m)\<close> thrown by a model method. \<open>ValidationError p\<close> is the
  rejection of \<^verbatim>\<open>save()\<close> or \<^verbatim>\<open>create()\<close> when the schema validator or the cast of path
  \<open>p\<close> fails, \<open>DuplicateKey p\<close> the violation of the unique index on \<open>p\<close>,
  \<open>DocumentNotFound\<close> a save of a document that is no longer stored, and \<open>TypeError\<close>
  a property read on \<^verbatim>\<open>null\<close>.
\<close>

datatype exn =
    Error string
  | ValidationError string
  | DuplicateKey string
  | DocumentNotFound
  | TypeError

text \<open>
  A handler answers through \<^verbatim>\<open>successResponse(res, data, message, statusCode)\<close> or
  \<^verbatim>\<open>errorResponse(res, message, statusCode)\<close>; the message of an error response is a
  literal of the source, one of the three template strings of \<^verbatim>\<open>getFareInBetween\<close>, or
  the message of a caught exception. An exception that no handler catches reaches
  \<^verbatim>\<open>asyncHandler\<close> and the error middleware, which are not among the sources:
  \<open>Unhandled\<close>.
\<close>

datatype message =
    Text string
  | MessageOf exn
  | FromStationNotFound oid
  | ToStationNotFound oid
  | NoFareForRoute string string

datatype 'a reply =
    SuccessResponse nat string 'a
  | ErrorResponse nat message
  | Unhandled exn

section \<open>Fare lookup\<close>

text \<open>
  \<^verbatim>\<open>fareSchema.statics.getFare\<close>: the first fare with the given stations and type that is
  active and whose \<^verbatim>\<open>effectiveTo\<close> is null or not before the clock reading. The query has
  no condition on \<^verbatim>\<open>effectiveFrom\<close>.
\<close>

definition getFare_query :: "oid \<Rightarrow> oid \<Rightarrow> string \<Rightarrow> date \<Rightarrow> fare \<Rightarrow> bool" where
  "getFare_query fromStationId toStationId ftype now f \<longleftrightarrow>
     f_fromStation f = fromStationId \<and> f_toStation f = toStationId \<and>
     fareType f = ftype \<and> isActive f \<and>
     (case effectiveTo f of None \<Rightarrow> True | Some e \<Rightarrow> now \<le> e)"

definition getFare :: "fare list \<Rightarrow> oid \<Rightarrow> oid \<Rightarrow> string \<Rightarrow> date \<Rightarrow> fare option" where
  "getFare fs fromStationId toStationId ftype now =
     find (getFare_query fromStationId toStationId ftype now) fs"







text \<open>
  Fares 1 \<rightarrow> 2 (price 30) and 2 \<rightarrow> 3 (price 20, effective until time 900), and no fare
  1 \<rightarrow> 3; the three stations.
\<close>

definition two_hop_fares :: "fare list" where
  "two_hop_fares =
     [\<lparr> f_fromStation = 1, f_toStation = 2, f_fare = dbl 30, distance = dbl 5,
        duration = dbl 10, isActive = True, fareType = ''regular'', effectiveFrom = 0,
        effectiveTo = None \<rparr>,
      \<lparr> f_fromStation = 2, f_toStation = 3, f_fare = dbl 20, distance = dbl 4,
        duration = dbl 8, isActive = True, fareType = ''regular'', effectiveFrom = 0,
        effectiveTo = Some 900 \<rparr>]"

definition three_stations :: "oid \<Rightarrow> station option" where
  "three_stations =
     [1 \<mapsto> \<lparr> st_name = ''Uttara'', st_isActive = True \<rparr>,
      2 \<mapsto> \<lparr> st_name = ''Agargaon'', st_isActive = True \<rparr>,
      3 \<mapsto> \<lparr> st_name = ''Motijheel'', st_isActive = True \<rparr>]"


section \<open>Documents in memory\<close>

text \<open>
  A query hydrates a stored user into a document. \<^verbatim>\<open>User.findById(id)\<close> loads every
  path; \<^verbatim>\<open>populate('user', 'fullName phoneNumber')\<close> loads the two named paths only, and a
  path that was not loaded reads as \<^verbatim>\<open>undefined\<close> (\<open>None\<close>), since defaults are not
  applied to paths outside an inclusive projection. The document also records which
  paths were assigned a new value (\<open>d_modified\<close>) and which assignments could not be cast
  to the type of the path (\<open>d_invalid\<close>).
\<close>

record user_doc =
  d_id :: oid
  d_fullName :: "string option"
  d_phoneNumber :: "string option"
  d_balance :: "number option"
  d_totalTrips :: "number option"
  d_totalExpense :: "number option"
  d_modified :: "string list"
  d_invalid :: "string list"

definition selected :: "string list option \<Rightarrow> string \<Rightarrow> 'a \<Rightarrow> 'a option" where
  "selected sel path v =
     (case sel of None \<Rightarrow> Some v
      | Some paths \<Rightarrow> if path \<in> set paths then Some v else None)"

definition hydrate_user :: "string list option \<Rightarrow> oid \<Rightarrow> user \<Rightarrow> user_doc" where
  "hydrate_user sel i u =
     \<lparr> d_id = i,
       d_fullName = selected sel ''fullName'' (fullName u),
       d_phoneNumber = selected sel ''phoneNumber'' (phoneNumber u),
       d_balance = selected sel ''balance'' (balance u),
       d_totalTrips = selected sel ''totalTrips'' (totalTrips u),
       d_totalExpense = selected sel ''totalExpense'' (totalExpense u),
       d_modified = [], d_invalid = [] \<rparr>"

definition findById_user :: "store \<Rightarrow> oid \<Rightarrow> user_doc option" where
  "findById_user s i = map_option (hydrate_user None i) (users s i)"

text \<open>
  Assignment to a path of type Number. \<^verbatim>\<open>NaN\<close> cannot be cast: the path keeps its value
  and the document is invalidated at that path. A value equal to the present one does
  not mark the path as modified.
\<close>

definition set_balance :: "number option \<Rightarrow> user_doc \<Rightarrow> user_doc" where
  "set_balance v d =
     (case v of
        None \<Rightarrow> d\<lparr>d_invalid := d_invalid d @ [''balance'']\<rparr>
      | Some x \<Rightarrow> if d_balance d = Some x then d
                  else d\<lparr>d_balance := Some x, d_modified := d_modified d @ [''balance'']\<rparr>)"

definition set_totalTrips :: "number option \<Rightarrow> user_doc \<Rightarrow> user_doc" where
  "set_totalTrips v d =
     (case v of
        None \<Rightarrow> d\<lparr>d_invalid := d_invalid d @ [''totalTrips'']\<rparr>
      | Some x \<Rightarrow> if d_totalTrips d = Some x then d
                  else d\<lparr>d_totalTrips := Some x, d_modified := d_modified d @ [''totalTrips'']\<rparr>)"

definition set_totalExpense :: "number option \<Rightarrow> user_doc \<Rightarrow> user_doc" where
  "set_totalExpense v d =
     (case v of
        None \<Rightarrow> d\<lparr>d_invalid := d_invalid d @ [''totalExpense'']\<rparr>
      | Some x \<Rightarrow> if d_totalExpense d = Some x then d
                  else d\<lparr>d_totalExpense := Some x,
                         d_modified := d_modified d @ [''totalExpense'']\<rparr>)"

text \<open>
  \<^verbatim>\<open>save()\<close> of a user document. It rejects when an assignment could not be cast or when
  a modified \<^verbatim>\<open>balance\<close> violates \<^verbatim>\<open>min: [0, 'Balance cannot be negative']\<close>; with no
  modified path it writes nothing; otherwise it writes the modified paths, and only
  those, to the stored document of the same \<^verbatim>\<open>_id\<close>.
\<close>

definition write_user :: "user_doc \<Rightarrow> user \<Rightarrow> user" where
  "write_user d u =
     u\<lparr> balance := (case d_balance d of
                      Some x \<Rightarrow> if ''balance'' \<in> set (d_modified d) then x else balance u
                    | None \<Rightarrow> balance u),
        totalTrips := (case d_totalTrips d of
                      Some x \<Rightarrow> if ''totalTrips'' \<in> set (d_modified d) then x else totalTrips u
                    | None \<Rightarrow> totalTrips u),
        totalExpense := (case d_totalExpense d of
                      Some x \<Rightarrow> if ''totalExpense'' \<in> set (d_modified d) then x
                                else totalExpense u
                    | None \<Rightarrow> totalExpense u) \<rparr>"

definition save_user :: "user_doc \<Rightarrow> store \<Rightarrow> exn + store" where
  "save_user d s =
     (case d_invalid d of
        p # _ \<Rightarrow> Inl (ValidationError p)
      | [] \<Rightarrow>
          if ''balance'' \<in> set (d_modified d) \<and> js_less (d_balance d) (Some 0)
          then Inl (ValidationError ''balance'')
          else if d_modified d = [] then Inr s
          else (case users s (d_id d) of
                  None \<Rightarrow> Inl DocumentNotFound
                | Some u \<Rightarrow> Inr (s\<lparr>users := (users s)(d_id d \<mapsto> write_user d u)\<rparr>)))"

text \<open>
  What a model method does with \<^verbatim>\<open>this\<close>: it either throws, leaving the document in
  memory as it then is and nothing written, or it ends in \<^verbatim>\<open>return this.save()\<close>.
\<close>

datatype 'd effect = Throws exn 'd | Saves 'd

section \<open>Balance ledger\<close>

text \<open>
  The \<^verbatim>\<open>amount\<close> of a deposit is read from the JSON body and is not converted before it
  reaches \<^verbatim>\<open>addBalance\<close>. The model covers the amounts that are a JSON number or a JSON
  string. With a string operand \<^verbatim>\<open>+=\<close> concatenates: the new value of the path is the
  cast to Number of the text of the balance followed by the string.

  Three functions on strings are called but not defined by the sources. They are
  parameters of the model: \<open>isFloat str m\<close> is \<^verbatim>\<open>validator.isFloat(str, { min: m })\<close>,
  \<open>toString x\<close> is the text of a Number (\<^verbatim>\<open>String(x)\<close>), and \<open>toNumber str\<close> is the Number
  that a string is cast to (\<^verbatim>\<open>Number(str)\<close>), \<open>None\<close> when that is \<^verbatim>\<open>NaN\<close>.
\<close>

datatype json = JNumber number | JString string

record runtime =
  isFloat :: "string \<Rightarrow> number \<Rightarrow> bool"
  toString :: "number \<Rightarrow> string"
  toNumber :: "string \<Rightarrow> number option"

text \<open>
  The values of the three functions at the texts of the examples: the string
  \<^verbatim>\<open>"50"\<close> is a float, of value 50; the text of the Number 100 is \<^verbatim>\<open>"100"\<close>; the text
  \<^verbatim>\<open>"10050"\<close> denotes the Number 10050. The examples apply the functions to these
  texts only, and the table has no other entry.
\<close>

definition example_runtime :: runtime where
  "example_runtime =
     \<lparr> isFloat = (\<lambda>str m. str = ''50'' \<and> m \<le> dbl 50),
       toString = (\<lambda>x. if x = dbl 100 then ''100'' else []),
       toNumber = (\<lambda>str. if str = ''10050'' then Some (dbl 10050) else None) \<rparr>"

text \<open>The expression \<^verbatim>\<open>this.balance + amount\<close>.\<close>

definition plus_json :: "runtime \<Rightarrow> number option \<Rightarrow> json \<Rightarrow> number option" where
  "plus_json rt x v =
     (case v of
        JNumber a \<Rightarrow> js_plus x (Some a)
      | JString str \<Rightarrow>
          toNumber rt ((case x of None \<Rightarrow> ''undefined'' | Some b \<Rightarrow> toString rt b) @ str))"

text \<open>\<^verbatim>\<open>userSchema.methods.addBalance\<close>.\<close>

definition addBalance :: "runtime \<Rightarrow> json \<Rightarrow> user_doc \<Rightarrow> user_doc effect" where
  "addBalance rt amount d = Saves (set_balance (plus_json rt (d_balance d) amount) d)"

text \<open>
  \<^verbatim>\<open>userSchema.methods.deductBalance\<close>; its argument is a JavaScript number, which may
  be \<^verbatim>\<open>NaN\<close>.
\<close>

definition deductBalance :: "number option \<Rightarrow> user_doc \<Rightarrow> user_doc effect" where
  "deductBalance amount d =
     (if js_less (d_balance d) amount then Throws (Error ''Insufficient balance'') d
      else Saves (set_balance (js_minus (d_balance d) amount) d))"

text \<open>\<^verbatim>\<open>userSchema.methods.updateTripStats\<close>.\<close>

definition updateTripStats :: "number \<Rightarrow> user_doc \<Rightarrow> user_doc effect" where
  "updateTripStats tripFare d =
     (let d1 = set_totalTrips (js_plus (d_totalTrips d) (Some (dbl 1))) d;
          d2 = set_totalExpense (js_plus (d_totalExpense d1) (Some tripFare)) d1
      in Saves d2)"

text \<open>\<^verbatim>\<open>await\<close> of a user method: the exception thrown, or the outcome of the save.\<close>

definition await_user :: "user_doc effect \<Rightarrow> store \<Rightarrow> exn + (user_doc \<times> store)" where
  "await_user e s =
     (case e of
        Throws x d \<Rightarrow> Inl x
      | Saves d \<Rightarrow> (case save_user d s of Inl x \<Rightarrow> Inl x | Inr s' \<Rightarrow> Inr (d, s')))"

subsection \<open>Deposit (POST /api/users/deposit)\<close>

record deposit_body =
  amount :: json
  dep_paymentMethod :: "string option"
  transactionId :: "string option"

definition is_space :: "char \<Rightarrow> bool" where
  "is_space c \<longleftrightarrow> c \<in> set [CHR '' '', CHR 0x09, CHR 0x0A, CHR 0x0B, CHR 0x0C, CHR 0x0D]"

definition trim :: "string \<Rightarrow> string" where
  "trim str = rev (dropWhile is_space (rev (dropWhile is_space str)))"

text \<open>
  The chain \<^verbatim>\<open>body('amount').isFloat({ min: 1 })\<close>. The validator is given the text of the
  value. The text of a finite Number reads back as that Number, so a number passes when
  it is finite and at least 1 (\<^verbatim>\<open>1e999\<close> in a body is \<^verbatim>\<open>Infinity\<close>, whose text is not a
  float); a string is judged by \<open>isFloat\<close>.
\<close>

definition amount_isFloat :: "runtime \<Rightarrow> json \<Rightarrow> bool" where
  "amount_isFloat rt v =
     (case v of
        JNumber a \<Rightarrow> finite_number a \<and> dbl 1 \<le> a
      | JString str \<Rightarrow> isFloat rt str (dbl 1))"

text \<open>
  \<^verbatim>\<open>depositValidation\<close>: the messages of the failing chains, in the order of the chains.
\<close>

definition depositValidation :: "runtime \<Rightarrow> deposit_body \<Rightarrow> string list" where
  "depositValidation rt b =
     (if amount_isFloat rt (amount b) then [] else [''Amount must be at least 1'']) @
     (case dep_paymentMethod b of
        None \<Rightarrow> []
      | Some m \<Rightarrow> if m \<in> set [''cash'', ''card'', ''mobile_banking''] then []
                  else [''Invalid payment method'']) @
     (case transactionId b of
        None \<Rightarrow> []
      | Some t \<Rightarrow> if trim t \<noteq> [] then []
                  else [''Transaction ID is required for non-cash payments''])"

text \<open>\<^verbatim>\<open>depositMoney\<close>; the data of the answer is \<^verbatim>\<open>user.balance\<close> after the call.\<close>

definition depositMoney ::
  "runtime \<Rightarrow> oid \<Rightarrow> deposit_body \<Rightarrow> store \<Rightarrow> number option reply \<times> store" where
  "depositMoney rt uid b s =
     (case depositValidation rt b of
        m # _ \<Rightarrow> (ErrorResponse 400 (Text m), s)
      | [] \<Rightarrow>
          (case findById_user s uid of
             None \<Rightarrow> (ErrorResponse 404 (Text ''User not found''), s)
           | Some d \<Rightarrow>
               (case await_user (addBalance rt (amount b) d) s of
                  Inl x \<Rightarrow> (Unhandled x, s)
                | Inr (d', s') \<Rightarrow>
                    (SuccessResponse 200 ''Deposit successful'' (d_balance d'), s'))))"

subsection \<open>Debit\<close>

text \<open>
  A debit is \<^verbatim>\<open>deductBalance\<close> on the user as \<^verbatim>\<open>User.findById\<close> returns it, which is how
  \<^verbatim>\<open>createTrip\<close> calls it; on \<^verbatim>\<open>null\<close> the call is a \<^verbatim>\<open>TypeError\<close>.
\<close>

definition debit :: "oid \<Rightarrow> number option \<Rightarrow> store \<Rightarrow> exn + store" where
  "debit uid a s =
     (case findById_user s uid of
        None \<Rightarrow> Inl TypeError
      | Some d \<Rightarrow> map_sum id snd (await_user (deductBalance a d) s))"

text \<open>
  The operations of the ledger; a failed debit leaves the store as it was.
\<close>

datatype ledger_op = Deposit oid deposit_body | Debit oid number

fun apply_ledger_op :: "runtime \<Rightarrow> ledger_op \<Rightarrow> store \<Rightarrow> store" where
  "apply_ledger_op rt (Deposit uid b) s = snd (depositMoney rt uid b s)"
| "apply_ledger_op rt (Debit uid a) s =
     (case debit uid (Some a) s of Inl x \<Rightarrow> s | Inr s' \<Rightarrow> s')"

fun run_ledger :: "runtime \<Rightarrow> ledger_op list \<Rightarrow> store \<Rightarrow> store" where
  "run_ledger rt [] s = s"
| "run_ledger rt (x # xs) s = run_ledger rt xs (apply_ledger_op rt x s)"

definition nonneg_balances :: "store \<Rightarrow> bool" where
  "nonneg_balances s \<longleftrightarrow> (\<forall>i u. users s i = Some u \<longrightarrow> 0 \<le> balance u)"

text \<open>A user with balance 100 and the store that holds this user under id 7.\<close>

definition alice :: user where
  "alice = \<lparr> fullName = ''Alice'', phoneNumber = ''+8801'', balance = dbl 100,
     totalTrips = 0, totalExpense = 0 \<rparr>"

definition ledger_store :: store where
  "ledger_store = \<lparr> users = [7 \<mapsto> alice], stations = three_stations,
     fares = two_hop_fares, trips = [] \<rparr>"

text \<open>
  The deposit of a number written in decimal, with no optional field; the deposit of
  \<^verbatim>\<open>0.5\<close>; and the deposit of the string \<^verbatim>\<open>"50"\<close>.
\<close>

definition deposit_of :: "rat \<Rightarrow> deposit_body" where
  "deposit_of x = \<lparr> amount = JNumber (dbl x), dep_paymentMethod = None,
     transactionId = None \<rparr>"

definition half_deposit :: deposit_body where
  "half_deposit = deposit_of (1 / 2)"

definition string_deposit :: deposit_body where
  "string_deposit = \<lparr> amount = JString ''50'', dep_paymentMethod = None,
     transactionId = None \<rparr>"

text \<open>
  A user whose balance is \<open>10^16\<close>; the next double above it is \<open>10^16 + 2\<close>.
\<close>

definition carol :: user where
  "carol = \<lparr> fullName = ''Carol'', phoneNumber = ''+8803'',
     balance = dbl 10000000000000000, totalTrips = 0, totalExpense = 0 \<rparr>"

definition carol_store :: store where
  "carol_store = \<lparr> users = [9 \<mapsto> carol], stations = three_stations,
     fares = two_hop_fares, trips = [] \<rparr>"

text \<open>The two optional chains of \<^verbatim>\<open>depositValidation\<close> pass.\<close>

definition optional_fields_valid :: "deposit_body \<Rightarrow> bool" where
  "optional_fields_valid b \<longleftrightarrow>
     (case dep_paymentMethod b of None \<Rightarrow> True
      | Some m \<Rightarrow> m \<in> set [''cash'', ''card'', ''mobile_banking'']) \<and>
     (case transactionId b of None \<Rightarrow> True | Some t \<Rightarrow> trim t \<noteq> [])"

section \<open>Trip lifecycle\<close>

subsection \<open>Issue (POST /api/trips)\<close>

text \<open>
  The body of the request. \<^verbatim>\<open>numberOfPassengers\<close> is the integer that the JSON value
  denotes: \<^verbatim>\<open>isInt\<close> accepts a string only if it is the decimal text of an integer, and
  both \<^verbatim>\<open>*\<close> and the cast of the path convert such a string to that integer.
\<close>

record createTrip_body =
  fromStation :: oid
  toStation :: oid
  b_numberOfPassengers :: int
  b_paymentMethod :: "string option"

text \<open>
  \<^verbatim>\<open>createTripValidation\<close>: the messages of the failing chains, in the order of the
  chains. The two station ids are ObjectIds by their type here, so \<^verbatim>\<open>isMongoId\<close> holds.
\<close>

definition createTripValidation :: "createTrip_body \<Rightarrow> string list" where
  "createTripValidation b =
     (if 1 \<le> b_numberOfPassengers b \<and> b_numberOfPassengers b \<le> 10 then []
      else [''Number of passengers must be between 1 and 10'']) @
     (case b_paymentMethod b of
        None \<Rightarrow> []
      | Some m \<Rightarrow> if m \<in> set [''balance'', ''cash'', ''card''] then []
                  else [''Invalid payment method''])"

text \<open>
  The document that \<^verbatim>\<open>Trip.create\<close> builds from the fields the handler passes and the
  defaults of the schema: \<^verbatim>\<open>tripCode\<close> is the code that the default generates (an input
  here), \<^verbatim>\<open>status\<close> is \<^verbatim>\<open>'created'\<close>, \<^verbatim>\<open>paymentStatus\<close> is \<^verbatim>\<open>'pending'\<close>, and
  \<^verbatim>\<open>expiresAt\<close> is \<^verbatim>\<open>Date.now() + 24 * 60 * 60 * 1000\<close>.
\<close>

definition new_trip ::
  "oid \<Rightarrow> oid \<Rightarrow> oid \<Rightarrow> number \<Rightarrow> int \<Rightarrow> number \<Rightarrow> string \<Rightarrow> string \<Rightarrow> date \<Rightarrow> trip" where
  "new_trip uid a b price n total_amount pm code now =
     \<lparr> tripCode = code, t_user = uid, t_fromStation = a, t_toStation = b, t_fare = price,
       numberOfPassengers = n, totalAmount = total_amount, status = Created, usedAt = None,
       expiresAt = now + 24 * 60 * 60 * 1000, journeyStartTime = None,
       journeyEndTime = None, paymentMethod = pm, paymentStatus = Pending \<rparr>"

text \<open>The validators of \<^verbatim>\<open>tripSchema\<close>: the first path that fails, if any.\<close>

definition validate_trip :: "trip \<Rightarrow> string option" where
  "validate_trip t =
     (if t_fare t < 0 then Some ''fare''
      else if numberOfPassengers t < 1 \<or> 10 < numberOfPassengers t
           then Some ''numberOfPassengers''
      else if totalAmount t < 0 then Some ''totalAmount''
      else if paymentMethod t \<notin> set [''balance'', ''cash'', ''card'']
           then Some ''paymentMethod''
      else None)"

text \<open>
  Saving a new trip: validation, then the insert, which the unique index on
  \<^verbatim>\<open>tripCode\<close> refuses when the code is already stored. The new \<^verbatim>\<open>_id\<close> is returned.
\<close>

definition create_trip :: "trip \<Rightarrow> store \<Rightarrow> exn + (oid \<times> store)" where
  "create_trip t s =
     (case validate_trip t of
        Some p \<Rightarrow> Inl (ValidationError p)
      | None \<Rightarrow>
          if tripCode t \<in> set (map tripCode (trips s)) then Inl (DuplicateKey ''tripCode'')
          else Inr (length (trips s), s\<lparr>trips := trips s @ [t]\<rparr>))"

text \<open>
  \<^verbatim>\<open>Trip.create\<close> with the fields of the handler. The total amount is the value of a
  product; if it is \<^verbatim>\<open>NaN\<close> the cast of \<^verbatim>\<open>totalAmount\<close> fails and nothing is inserted.
\<close>

definition Trip_create ::
  "oid \<Rightarrow> oid \<Rightarrow> oid \<Rightarrow> number \<Rightarrow> int \<Rightarrow> number option \<Rightarrow> string \<Rightarrow> string \<Rightarrow> date \<Rightarrow> store
     \<Rightarrow> exn + (oid \<times> store)" where
  "Trip_create uid a b price n total_amount pm code now s =
     (case total_amount of
        None \<Rightarrow> Inl (ValidationError ''totalAmount'')
      | Some amt \<Rightarrow> create_trip (new_trip uid a b price n amt pm code now) s)"

text \<open>
  The test \<^verbatim>\<open>paymentMethod === 'balance' && user.balance < totalAmount\<close>; the right
  operand is evaluated only for the method \<^verbatim>\<open>'balance'\<close>, and reads a property of
  \<^verbatim>\<open>null\<close> when the user was not found.
\<close>

definition insufficient :: "string \<Rightarrow> user_doc option \<Rightarrow> number option \<Rightarrow> exn + bool" where
  "insufficient pm usr total_amount =
     (if pm \<noteq> ''balance'' then Inr False
      else (case usr of
              None \<Rightarrow> Inl TypeError
            | Some d \<Rightarrow> Inr (js_less (d_balance d) total_amount)))"

text \<open>
  The statement \<^verbatim>\<open>if (paymentMethod === 'balance') await user.deductBalance(totalAmount)\<close>.
\<close>

definition pay :: "string \<Rightarrow> user_doc option \<Rightarrow> number option \<Rightarrow> store \<Rightarrow> exn + store" where
  "pay pm usr total_amount s =
     (if pm \<noteq> ''balance'' then Inr s
      else (case usr of
              None \<Rightarrow> Inl TypeError
            | Some d \<Rightarrow> map_sum id snd (await_user (deductBalance total_amount d) s)))"

text \<open>
  The expression \<^verbatim>\<open>fare.fare * numberOfPassengers\<close>: the product of two doubles,
  rounded.
\<close>

definition total_of :: "fare \<Rightarrow> int \<Rightarrow> number option" where
  "total_of f n = js_mul (f_fare f) (dbl (of_int n))"

text \<open>
  \<^verbatim>\<open>createTrip\<close>. The arguments are \<^verbatim>\<open>req.user.id\<close>, the body, the clock reading of
  \<^verbatim>\<open>getFare\<close>, the clock reading of the \<^verbatim>\<open>expiresAt\<close> default, the generated trip code
  and the store. The answer carries the \<^verbatim>\<open>_id\<close> and the fields of the new trip. The two
  final \<^verbatim>\<open>populate\<close> calls only read stations and are left out.
\<close>

definition createTrip ::
  "oid \<Rightarrow> createTrip_body \<Rightarrow> date \<Rightarrow> date \<Rightarrow> string \<Rightarrow> store \<Rightarrow> (oid \<times> trip) reply \<times> store"
  where
  "createTrip uid b tq tc code s =
     (case createTripValidation b of
        m # _ \<Rightarrow> (ErrorResponse 400 (Text m), s)
      | [] \<Rightarrow>
          (let pm = (case b_paymentMethod b of None \<Rightarrow> ''balance'' | Some m \<Rightarrow> m) in
           case getFare (fares s) (fromStation b) (toStation b) ''regular'' tq of
             None \<Rightarrow> (ErrorResponse 404 (Text ''Fare not found for this route''), s)
           | Some f \<Rightarrow>
               (let total_amount = total_of f (b_numberOfPassengers b);
                    usr = findById_user s uid in
                case insufficient pm usr total_amount of
                  Inl x \<Rightarrow> (Unhandled x, s)
                | Inr True \<Rightarrow> (ErrorResponse 400 (Text ''Insufficient balance''), s)
                | Inr False \<Rightarrow>
                    (case Trip_create uid (fromStation b) (toStation b) (f_fare f)
                            (b_numberOfPassengers b) total_amount pm code tc s of
                       Inl x \<Rightarrow> (Unhandled x, s)
                     | Inr (i, s1) \<Rightarrow>
                         (case pay pm usr total_amount s1 of
                            Inl x \<Rightarrow> (Unhandled x, s1)
                          | Inr s2 \<Rightarrow>
                              (SuccessResponse 201 ''Trip created successfully''
                                 (i, trips s1 ! i), s2))))))"

text \<open>
  A fare of 30 from station 1 to station 2, Alice (id 7) with her balance of 100 and Bob
  (id 8) with a balance of 0.
\<close>

definition bob :: user where
  "bob = \<lparr> fullName = ''Bob'', phoneNumber = ''+8802'', balance = 0, totalTrips = 0,
     totalExpense = 0 \<rparr>"

definition issue_store :: store where
  "issue_store = \<lparr> users = [7 \<mapsto> alice, 8 \<mapsto> bob], stations = three_stations,
     fares = two_hop_fares, trips = [] \<rparr>"

definition four_by_cash :: createTrip_body where
  "four_by_cash = \<lparr> fromStation = 1, toStation = 2, b_numberOfPassengers = 4,
     b_paymentMethod = Some ''cash'' \<rparr>"

definition two_by_balance :: createTrip_body where
  "two_by_balance = \<lparr> fromStation = 1, toStation = 2, b_numberOfPassengers = 2,
     b_paymentMethod = Some ''balance'' \<rparr>"

definition one_by_balance :: createTrip_body where
  "one_by_balance = \<lparr> fromStation = 1, toStation = 2, b_numberOfPassengers = 1,
     b_paymentMethod = Some ''balance'' \<rparr>"

definition three_by_balance :: createTrip_body where
  "three_by_balance = \<lparr> fromStation = 1, toStation = 2, b_numberOfPassengers = 3,
     b_paymentMethod = Some ''balance'' \<rparr>"

text \<open>
  Dave (id 10) has a balance of \<open>10^17\<close>; around that value the doubles are 16 apart.
\<close>

definition dave :: user where
  "dave = \<lparr> fullName = ''Dave'', phoneNumber = ''+8804'',
     balance = dbl 100000000000000000, totalTrips = 0, totalExpense = 0 \<rparr>"

definition dave_store :: store where
  "dave_store = \<lparr> users = [10 \<mapsto> dave], stations = three_stations,
     fares = two_hop_fares, trips = [] \<rparr>"

text \<open>
  A fare of \<^verbatim>\<open>0.7\<close> from station 1 to station 2, and Erin (id 11) whose balance is the
  Number written \<^verbatim>\<open>2.0999999999999996\<close>, the double just below \<^verbatim>\<open>2.1\<close>.
\<close>

definition cheap_fare :: fare where
  "cheap_fare = \<lparr> f_fromStation = 1, f_toStation = 2, f_fare = dbl (7 / 10),
     distance = dbl 5, duration = dbl 10, isActive = True, fareType = ''regular'',
     effectiveFrom = 0, effectiveTo = None \<rparr>"

definition erin :: user where
  "erin = \<lparr> fullName = ''Erin'', phoneNumber = ''+8805'',
     balance = dbl (20999999999999996 / 10000000000000000), totalTrips = 0,
     totalExpense = 0 \<rparr>"

definition erin_store :: store where
  "erin_store = \<lparr> users = [11 \<mapsto> erin], stations = three_stations,
     fares = [cheap_fare], trips = [] \<rparr>"

text \<open>
  A fare of \<^verbatim>\<open>0.1\<close> from station 1 to station 2, and Frank (id 12) whose balance is the
  Number \<^verbatim>\<open>0.3\<close>; the product \<^verbatim>\<open>0.1 * 3\<close> is the next double above \<^verbatim>\<open>0.3\<close>.
\<close>

definition tenth_fare :: fare where
  "tenth_fare = \<lparr> f_fromStation = 1, f_toStation = 2, f_fare = dbl (1 / 10),
     distance = dbl 5, duration = dbl 10, isActive = True, fareType = ''regular'',
     effectiveFrom = 0, effectiveTo = None \<rparr>"

definition frank :: user where
  "frank = \<lparr> fullName = ''Frank'', phoneNumber = ''+8806'', balance = dbl (3 / 10),
     totalTrips = 0, totalExpense = 0 \<rparr>"

definition frank_store :: store where
  "frank_store = \<lparr> users = [12 \<mapsto> frank], stations = three_stations,
     fares = [tenth_fare], trips = [] \<rparr>"

subsection \<open>Trip documents\<close>

text \<open>
  A trip in memory: its \<^verbatim>\<open>_id\<close>, its paths, and the \<^verbatim>\<open>user\<close> path as populated (\<open>None\<close>
  is \<^verbatim>\<open>null\<close>, when no user of that id is stored). \<^verbatim>\<open>save()\<close> writes the paths whose value
  differs from the one loaded, and only those, to the stored trip of the same \<^verbatim>\<open>_id\<close>; the
  methods assign to \<^verbatim>\<open>status\<close>, \<^verbatim>\<open>usedAt\<close>, \<^verbatim>\<open>journeyStartTime\<close> and \<^verbatim>\<open>journeyEndTime\<close>.
\<close>

record trip_doc =
  td_id :: oid
  td_trip :: trip
  td_user :: "user_doc option"

definition write_trip :: "trip \<Rightarrow> trip \<Rightarrow> trip \<Rightarrow> trip" where
  "write_trip loaded new stored =
     stored\<lparr> status := (if status new \<noteq> status loaded then status new else status stored),
        usedAt := (if usedAt new \<noteq> usedAt loaded then usedAt new else usedAt stored),
        journeyStartTime := (if journeyStartTime new \<noteq> journeyStartTime loaded
                             then journeyStartTime new else journeyStartTime stored),
        journeyEndTime := (if journeyEndTime new \<noteq> journeyEndTime loaded
                           then journeyEndTime new else journeyEndTime stored) \<rparr>"

definition save_trip :: "oid \<Rightarrow> trip \<Rightarrow> trip \<Rightarrow> store \<Rightarrow> exn + store" where
  "save_trip i loaded new s =
     (if new = loaded then Inr s
      else if i < length (trips s)
           then Inr (s\<lparr>trips := (trips s)[i := write_trip loaded new (trips s ! i)]\<rparr>)
      else Inl DocumentNotFound)"

definition await_trip :: "oid \<Rightarrow> trip \<Rightarrow> trip effect \<Rightarrow> store \<Rightarrow> exn + (trip \<times> store)" where
  "await_trip i loaded e s =
     (case e of
        Throws x t \<Rightarrow> Inl x
      | Saves t \<Rightarrow> (case save_trip i loaded t s of Inl x \<Rightarrow> Inl x | Inr s' \<Rightarrow> Inr (t, s')))"

fun status_name :: "status \<Rightarrow> string" where
  "status_name Created = ''created''"
| "status_name Used = ''used''"
| "status_name Expired = ''expired''"
| "status_name Cancelled = ''cancelled''"

subsection \<open>Redeem (POST /api/trips/use/:tripCode)\<close>

text \<open>
  \<^verbatim>\<open>tripSchema.statics.getValidTrip\<close>: the first trip with the code that has the status
  \<^verbatim>\<open>'created'\<close> and \<^verbatim>\<open>expiresAt\<close> after the clock reading, with \<^verbatim>\<open>user\<close> populated by the
  paths \<^verbatim>\<open>fullName\<close> and \<^verbatim>\<open>phoneNumber\<close>. The two station populates are left out.
\<close>

definition getValidTrip_query :: "string \<Rightarrow> date \<Rightarrow> trip \<Rightarrow> bool" where
  "getValidTrip_query code now t \<longleftrightarrow>
     tripCode t = code \<and> status t = Created \<and> now < expiresAt t"

definition getValidTrip :: "store \<Rightarrow> string \<Rightarrow> date \<Rightarrow> trip_doc option" where
  "getValidTrip s code now =
     (case find (\<lambda>it. getValidTrip_query code now (snd it)) (enumerate 0 (trips s)) of
        None \<Rightarrow> None
      | Some (i, t) \<Rightarrow>
          Some \<lparr> td_id = i, td_trip = t,
                 td_user = map_option
                   (hydrate_user (Some [''fullName'', ''phoneNumber'']) (t_user t))
                   (users s (t_user t)) \<rparr>)"

text \<open>
  \<^verbatim>\<open>tripSchema.methods.useTrip\<close>, with the three clock readings of its body. In the
  expiry branch the assignment \<^verbatim>\<open>this.status = 'expired'\<close> is followed by the
  \<^verbatim>\<open>throw\<close>, so \<^verbatim>\<open>save()\<close> is not reached.
\<close>

definition useTrip :: "date \<Rightarrow> date \<Rightarrow> date \<Rightarrow> trip \<Rightarrow> trip effect" where
  "useTrip t1 t2 t3 t =
     (if status t \<noteq> Created
      then Throws (Error (''Trip cannot be used. Status: '' @ status_name (status t))) t
      else if expiresAt t < t1
      then Throws (Error ''Trip has expired'') (t\<lparr>status := Expired\<rparr>)
      else Saves (t\<lparr>status := Used, usedAt := Some t2, journeyStartTime := Some t3\<rparr>))"

text \<open>
  The route handler \<^verbatim>\<open>useTrip\<close>. Its arguments are the trip code, the clock reading of
  \<^verbatim>\<open>getValidTrip\<close> and the three of the method. Everything after the lookup is inside
  \<^verbatim>\<open>try\<close>: any exception is answered with 400 and its message, and what was saved
  before the exception stays saved.
\<close>

definition useTrip_handler ::
  "string \<Rightarrow> date \<Rightarrow> date \<Rightarrow> date \<Rightarrow> date \<Rightarrow> store \<Rightarrow> trip reply \<times> store" where
  "useTrip_handler code t0 t1 t2 t3 s =
     (case getValidTrip s code t0 of
        None \<Rightarrow> (ErrorResponse 404 (Text ''Invalid or expired trip code''), s)
      | Some doc \<Rightarrow>
          (case await_trip (td_id doc) (td_trip doc) (useTrip t1 t2 t3 (td_trip doc)) s of
             Inl x \<Rightarrow> (ErrorResponse 400 (MessageOf x), s)
           | Inr (t', s1) \<Rightarrow>
               (case td_user doc of
                  None \<Rightarrow> (ErrorResponse 400 (MessageOf TypeError), s1)
                | Some ud \<Rightarrow>
                    (case await_user (updateTripStats (totalAmount t') ud) s1 of
                       Inl x \<Rightarrow> (ErrorResponse 400 (MessageOf x), s1)
                     | Inr (ud', s2) \<Rightarrow>
                         (SuccessResponse 200 ''Trip used successfully'' t', s2)))))"

subsection \<open>Complete journey (POST /api/trips/:id/complete)\<close>

text \<open>\<^verbatim>\<open>tripSchema.methods.completeJourney\<close>.\<close>

definition completeJourney :: "date \<Rightarrow> trip \<Rightarrow> trip effect" where
  "completeJourney now t =
     (if status t \<noteq> Used
      then Throws (Error (''Journey cannot be completed. Trip status: ''
                           @ status_name (status t))) t
      else Saves (t\<lparr>journeyEndTime := Some now\<rparr>))"

definition findById_trip :: "store \<Rightarrow> oid \<Rightarrow> trip option" where
  "findById_trip s i = (if i < length (trips s) then Some (trips s ! i) else None)"

text \<open>
  The route handler \<^verbatim>\<open>completeJourney\<close>: \<^verbatim>\<open>req.user.id\<close>, \<^verbatim>\<open>req.params.id\<close>, the clock
  reading of the method, the store. The ownership test comes before the method call.
\<close>

definition completeJourney_handler ::
  "oid \<Rightarrow> oid \<Rightarrow> date \<Rightarrow> store \<Rightarrow> trip reply \<times> store" where
  "completeJourney_handler uid i now s =
     (case findById_trip s i of
        None \<Rightarrow> (ErrorResponse 404 (Text ''Trip not found''), s)
      | Some t \<Rightarrow>
          if t_user t \<noteq> uid then (ErrorResponse 403 (Text ''Not authorized''), s)
          else (case await_trip i t (completeJourney now t) s of
                  Inl x \<Rightarrow> (ErrorResponse 400 (MessageOf x), s)
                | Inr (t', s') \<Rightarrow>
                    (SuccessResponse 200 ''Journey completed successfully'' t', s')))"

subsection \<open>Sequences of requests\<close>

text \<open>
  The requests of the trip routes and the deposit, which are the only ones that create
  or save a trip, and the store after a sequence of them.
\<close>

datatype request =
    Issue oid createTrip_body date date string
  | Redeem string date date date date
  | Complete oid oid date
  | DepositMoney oid deposit_body

fun handle :: "runtime \<Rightarrow> request \<Rightarrow> store \<Rightarrow> store" where
  "handle rt (Issue uid b tq tc code) s = snd (createTrip uid b tq tc code s)"
| "handle rt (Redeem code t0 t1 t2 t3) s = snd (useTrip_handler code t0 t1 t2 t3 s)"
| "handle rt (Complete uid i now) s = snd (completeJourney_handler uid i now s)"
| "handle rt (DepositMoney uid b) s = snd (depositMoney rt uid b s)"

fun run :: "runtime \<Rightarrow> request list \<Rightarrow> store \<Rightarrow> store" where
  "run rt [] s = s"
| "run rt (r # rs) s = run rt rs (handle rt r s)"

text \<open>
  Alice holds the trip \<^verbatim>\<open>TRIP-0A1B2C3D\<close> of two passengers, bought at time 600 and not
  yet used; it expires at 86400600.
\<close>

definition alice_trip :: trip where
  "alice_trip = new_trip 7 1 2 (dbl 30) 2 (dbl 60) ''balance'' ''TRIP-0A1B2C3D'' 600"

definition redeem_store :: store where
  "redeem_store = \<lparr> users = [7 \<mapsto> alice\<lparr>balance := dbl 40\<rparr>, 8 \<mapsto> bob],
     stations = three_stations, fares = two_hop_fares, trips = [alice_trip] \<rparr>"

text \<open>The same trip after its redemption at time 1002.\<close>

definition used_trip :: trip where
  "used_trip = alice_trip\<lparr>status := Used, usedAt := Some 1002, journeyStartTime := Some 1003\<rparr>"

definition travel_store :: store where
  "travel_store = redeem_store\<lparr>trips := [used_trip]\<rparr>"

text \<open>The trip with \<^verbatim>\<open>_id\<close> \<open>i\<close> is stored and has the status \<^verbatim>\<open>'used'\<close>.\<close>

definition used_at :: "oid \<Rightarrow> store \<Rightarrow> bool" where
  "used_at i s \<longleftrightarrow> i < length (trips s) \<and> status (trips s ! i) = Used"

section \<open>Concurrent Issue requests\<close>

text \<open>
  \<^verbatim>\<open>createTrip\<close> is an \<^verbatim>\<open>async\<close> function: it can be suspended at each \<^verbatim>\<open>await\<close>, and the
  code between two of them runs without interruption. Every \<^verbatim>\<open>await\<close> of the handler is
  one operation on the store, so a request in progress is in one of these states:
  about to call \<^verbatim>\<open>Fare.getFare\<close>; holding the fare, about to call \<^verbatim>\<open>User.findById\<close>;
  holding the user document whose balance passed the test, about to call
  \<^verbatim>\<open>Trip.create\<close>; holding the created trip, about to call \<^verbatim>\<open>user.deductBalance\<close> on the
  document it loaded; or answered.
\<close>

record issue_request =
  r_uid :: oid
  r_body :: createTrip_body
  r_tq :: date
  r_tc :: date
  r_code :: string

datatype issue_task =
    Start
  | GotFare fare
  | GotUser fare "user_doc option"
  | Inserted fare "user_doc option" oid trip
  | Done "(oid \<times> trip) reply"

definition r_method :: "issue_request \<Rightarrow> string" where
  "r_method r = (case b_paymentMethod (r_body r) of None \<Rightarrow> ''balance'' | Some m \<Rightarrow> m)"

definition r_total :: "issue_request \<Rightarrow> fare \<Rightarrow> number option" where
  "r_total r f = total_of f (b_numberOfPassengers (r_body r))"

fun issue_step :: "issue_request \<Rightarrow> issue_task \<Rightarrow> store \<Rightarrow> issue_task \<times> store" where
  "issue_step r Start s =
     (case createTripValidation (r_body r) of
        m # _ \<Rightarrow> (Done (ErrorResponse 400 (Text m)), s)
      | [] \<Rightarrow>
          (case getFare (fares s) (fromStation (r_body r)) (toStation (r_body r))
                  ''regular'' (r_tq r) of
             None \<Rightarrow> (Done (ErrorResponse 404 (Text ''Fare not found for this route'')), s)
           | Some f \<Rightarrow> (GotFare f, s)))"
| "issue_step r (GotFare f) s =
     (let usr = findById_user s (r_uid r) in
      case insufficient (r_method r) usr (r_total r f) of
        Inl x \<Rightarrow> (Done (Unhandled x), s)
      | Inr True \<Rightarrow> (Done (ErrorResponse 400 (Text ''Insufficient balance'')), s)
      | Inr False \<Rightarrow> (GotUser f usr, s))"
| "issue_step r (GotUser f usr) s =
     (case Trip_create (r_uid r) (fromStation (r_body r)) (toStation (r_body r)) (f_fare f)
             (b_numberOfPassengers (r_body r)) (r_total r f) (r_method r) (r_code r)
             (r_tc r) s of
        Inl x \<Rightarrow> (Done (Unhandled x), s)
      | Inr (i, s1) \<Rightarrow> (Inserted f usr i (trips s1 ! i), s1))"
| "issue_step r (Inserted f usr i t) s =
     (case pay (r_method r) usr (r_total r f) s of
        Inl x \<Rightarrow> (Done (Unhandled x), s)
      | Inr s2 \<Rightarrow> (Done (SuccessResponse 201 ''Trip created successfully'' (i, t)), s2))"
| "issue_step r (Done q) s = (Done q, s)"

text \<open>A request that runs alone, for a number of steps.\<close>

fun issue_steps :: "nat \<Rightarrow> issue_request \<Rightarrow> issue_task \<times> store \<Rightarrow> issue_task \<times> store" where
  "issue_steps 0 r c = c"
| "issue_steps (Suc n) r c = issue_steps n r (issue_step r (fst c) (snd c))"

text \<open>
  Two requests in progress on one store. A schedule says, step by step, which of the
  two runs next: \<open>True\<close> the first, \<open>False\<close> the second.
\<close>

fun race ::
  "issue_request \<Rightarrow> issue_request \<Rightarrow> bool list \<Rightarrow> issue_task \<times> issue_task \<times> store
     \<Rightarrow> issue_task \<times> issue_task \<times> store" where
  "race ra rb [] c = c"
| "race ra rb (first # sch) (a, b, s) =
     (if first then (case issue_step ra a s of (a', s') \<Rightarrow> race ra rb sch (a', b, s'))
      else (case issue_step rb b s of (b', s') \<Rightarrow> race ra rb sch (a, b', s')))"

definition store_of :: "issue_task \<times> issue_task \<times> store \<Rightarrow> store" where
  "store_of c = snd (snd c)"

text \<open>
  Two requests of Alice, each for two passengers from station 1 to station 2 paid from
  the balance, and the schedule in which both load the user before either creates its
  trip.
\<close>

definition first_request :: issue_request where
  "first_request = \<lparr> r_uid = 7, r_body = two_by_balance, r_tq = 500, r_tc = 600,
     r_code = ''TRIP-0A1B2C3D'' \<rparr>"

definition second_request :: issue_request where
  "second_request = \<lparr> r_uid = 7, r_body = two_by_balance, r_tq = 501, r_tc = 601,
     r_code = ''TRIP-4E5F6A7B'' \<rparr>"

definition both_read_first :: "bool list" where
  "both_read_first = [True, True, False, False, True, True, False, False]"

section \<open>Theorems\<close>

subsection \<open>JavaScript numbers\<close>

lemma bits_pos: "0 < n \<Longrightarrow> 0 < bits n"
  by (subst bits.simps) simp

lemma bits_bounds: "0 < n \<Longrightarrow> 2 ^ (bits n - 1) \<le> n \<and> n < 2 ^ bits n"
proof (induction n rule: bits.induct)
  case (1 n)
  show ?case
  proof (cases "n div 2 = 0")
    case True
    with "1.prems" have "n = 1" by (simp add: div_eq_0_iff)
    moreover have "bits (Suc 0) = Suc 0"
      by (simp add: bits.simps [of "Suc 0"] bits.simps [of 0])
    ultimately show ?thesis by simp
  next
    case False
    then have pos: "0 < n div 2" by simp
    from "1.prems" have n0: "n \<noteq> 0" by simp
    let ?b = "bits (n div 2)"
    have ih: "2 ^ (?b - 1) \<le> n div 2 \<and> n div 2 < 2 ^ ?b"
      using "1.IH" [OF n0 pos] .
    have b: "0 < ?b" using pos by (rule bits_pos)
    have bn: "bits n = Suc ?b" using n0 by (subst bits.simps) simp
    have "(2::nat) ^ ?b = 2 * 2 ^ (?b - 1)" using b by (cases ?b) simp_all
    with ih have "2 ^ ?b \<le> 2 * (n div 2)" by simp
    then have lo: "2 ^ ?b \<le> n" by linarith
    from ih have "n div 2 + 1 \<le> 2 ^ ?b" by simp
    then have "n < 2 * 2 ^ ?b" by linarith
    with lo bn show ?thesis by simp
  qed
qed

lemma powi_less_imp: "(2::rat) powi m < 2 powi n \<Longrightarrow> m < n"
proof (rule ccontr)
  assume a: "(2::rat) powi m < 2 powi n" and "\<not> m < n"
  then have "n \<le> m" by simp
  then have "(2::rat) powi n \<le> 2 powi m" by (intro power_int_increasing) simp_all
  with a show False by simp
qed

lemma expo_bounds:
  assumes "0 < x"
  shows "2 powi expo x \<le> x \<and> x < 2 powi (expo x + 1)"
proof (cases "1 \<le> x")
  case True
  let ?n = "nat \<lfloor>x\<rfloor>"
  from True have fl: "1 \<le> \<lfloor>x\<rfloor>" by simp
  then have n: "0 < ?n" by simp
  note b = bits_bounds [OF n] bits_pos [OF n]
  have e: "expo x = int (bits ?n) - 1" using True by (simp add: expo_def)
  have e1: "expo x = int (bits ?n - 1)" using b e by simp
  have "(2::rat) powi expo x = 2 ^ (bits ?n - 1)"
    unfolding e1 by simp
  also have "\<dots> = of_nat (2 ^ (bits ?n - 1))" by simp
  also have "\<dots> \<le> of_nat ?n"
  proof -
    from b(1) have "2 ^ (bits ?n - 1) \<le> ?n" by blast
    then show ?thesis by (simp only: of_nat_le_iff)
  qed
  also have "\<dots> = of_int \<lfloor>x\<rfloor>" using fl by simp
  also have "\<dots> \<le> x" by simp
  finally have lo: "2 powi expo x \<le> x" .
  from b(1) have "?n < 2 ^ bits ?n" by blast
  then have "Suc ?n \<le> 2 ^ bits ?n" by (rule Suc_leI)
  then have "(of_nat (Suc ?n) :: rat) \<le> of_nat (2 ^ bits ?n)" by (simp only: of_nat_le_iff)
  then have "of_int \<lfloor>x\<rfloor> + 1 \<le> (2::rat) ^ bits ?n" using fl by simp
  moreover have "x < of_int \<lfloor>x\<rfloor> + 1" by linarith
  ultimately have "x < (2::rat) ^ bits ?n" by simp
  moreover have "(2::rat) powi (expo x + 1) = 2 ^ bits ?n" by (simp add: e)
  ultimately show ?thesis using lo by simp
next
  case False
  with assms have x1: "x < 1" and x0: "0 < x" by simp_all
  define y where "y = 1 / x"
  define c where "c = \<lceil>y\<rceil>"
  define n where "n = nat (c - 1)"
  have y1: "1 < y" using x0 x1 by (simp add: y_def)
  have yc: "y \<le> of_int c" and cy: "of_int c - 1 < y"
    unfolding c_def by linarith+
  from y1 yc have "1 < (of_int c :: rat)" by linarith
  then have c: "2 \<le> c" by linarith
  then have n: "0 < n" by (simp add: n_def)
  note b = bits_bounds [OF n] bits_pos [OF n]
  have e: "expo x = - int (bits n)"
    using False by (simp add: expo_def n_def c_def y_def)
  from c have "int n = c - 1" by (simp add: n_def)
  then have "(of_int (int n) :: rat) = of_int (c - 1)" by (simp only:)
  then have nn: "(of_nat n :: rat) = of_int c - 1" by simp
  from b(1) have "n < 2 ^ bits n" by blast
  then have "Suc n \<le> 2 ^ bits n" by (rule Suc_leI)
  then have "(of_nat (Suc n) :: rat) \<le> of_nat (2 ^ bits n)" by (simp only: of_nat_le_iff)
  then have "of_int c \<le> (2::rat) ^ bits n" using nn by simp
  with yc have "y \<le> (2::rat) ^ bits n" by linarith
  then have "1 \<le> x * 2 ^ bits n" using x0 by (simp add: y_def field_simps)
  then have lo: "2 powi expo x \<le> x"
    unfolding e by (simp add: power_int_minus field_simps)
  from b(1) have "2 ^ (bits n - 1) \<le> n" by blast
  then have "(of_nat (2 ^ (bits n - 1)) :: rat) \<le> of_nat n" by (simp only: of_nat_le_iff)
  then have "(2::rat) ^ (bits n - 1) \<le> of_int c - 1" using nn by simp
  with cy have "(2::rat) ^ (bits n - 1) < y" by linarith
  then have "x * 2 ^ (bits n - 1) < 1" using x0 by (simp add: y_def field_simps)
  moreover have "expo x + 1 = - int (bits n - 1)" using b e by simp
  ultimately have "x < 2 powi (expo x + 1)"
    by (simp add: power_int_minus field_simps)
  with lo show ?thesis by simp
qed

lemma expo_unique:
  assumes "2 powi e \<le> x" and "x < 2 powi (e + 1)"
  shows "expo x = e"
proof -
  have "0 < (2::rat) powi e" by simp
  with assms(1) have x: "0 < x" by linarith
  note b = expo_bounds [OF x]
  from b assms have "(2::rat) powi e < 2 powi (expo x + 1)" by linarith
  then have 1: "e < expo x + 1" by (rule powi_less_imp)
  from b assms have "(2::rat) powi expo x < 2 powi (e + 1)" by linarith
  then have "expo x < e + 1" by (rule powi_less_imp)
  with 1 show ?thesis by simp
qed

lemma round_half_even_of_int [simp]: "round_half_even (of_int i) = i"
  by (simp add: round_half_even_def)

lemma round_half_even_ge: "of_int N \<le> m \<Longrightarrow> N \<le> round_half_even m"
proof -
  assume "of_int N \<le> m"
  then have "N \<le> \<lfloor>m\<rfloor>" by (simp add: le_floor_iff)
  moreover have "\<lfloor>m\<rfloor> \<le> round_half_even m"
    by (simp add: round_half_even_def Let_def)
  ultimately show ?thesis by simp
qed

lemma round_half_even_le: "m \<le> of_int N \<Longrightarrow> round_half_even m \<le> N"
proof (cases "m = of_int N")
  case True
  then show ?thesis by simp
next
  case False
  assume "m \<le> of_int N"
  with False have "m < of_int N" by simp
  then have "\<lfloor>m\<rfloor> < N" by (simp add: floor_less_iff)
  moreover have "round_half_even m \<le> \<lfloor>m\<rfloor> + 1"
    by (simp add: round_half_even_def Let_def)
  ultimately show ?thesis by simp
qed

lemma quantum_pos: "0 < quantum x"
  by (simp add: quantum_def)

lemma quantum_neq_0 [simp]: "quantum x \<noteq> 0"
  using quantum_pos [of x] by linarith

lemma rne_0 [simp]: "rne 0 = 0"
  by (simp add: rne_def)

lemma rne_exact:
  assumes "x / quantum x \<in> \<int>"
  shows "rne x = x"
proof (cases "x = 0")
  case True
  then show ?thesis by simp
next
  case False
  have "\<bar>quantum x\<bar> = quantum x" using quantum_pos [of x] by (rule abs_of_pos)
  then have "\<bar>x\<bar> / quantum x = \<bar>x / quantum x\<bar>" by (simp add: abs_divide)
  also have "\<dots> \<in> \<int>" using assms by (rule Ints_abs)
  finally obtain i where i: "\<bar>x\<bar> / quantum x = of_int i" by (auto elim: Ints_cases)
  have q: "quantum x \<noteq> 0" by simp
  from i have "of_int i * quantum x = \<bar>x\<bar>" using q by (simp add: field_simps)
  then have "rne x = sgn x * \<bar>x\<bar>" using False by (simp add: rne_def i)
  then show ?thesis by (simp add: mult_sgn_abs)
qed

lemma expo_powi [simp]: "expo (2 powi j) = j"
  by (rule expo_unique) (simp_all add: power_int_strict_increasing)

lemma powi_53: "(2::rat) powi (k + 53) = 2 ^ 53 * 2 powi k"
  by (simp add: power_int_add)

lemma powi_succ: "(2::rat) powi (E + 1) = 2 ^ 53 * 2 powi (E - 52)"
  using powi_53 [of "E - 52"] by (simp add: add.commute)

lemma powi_same: "(2::rat) powi E = 2 ^ 52 * 2 powi (E - 52)"
  using power_int_add [of "2::rat" "E - 52" 52] by (simp add: mult.commute)

lemma rne_quantum:
  "rne x / quantum (rne x) \<in> \<int>"
proof (cases "x = 0")
  case True
  then show ?thesis by simp
next
  case False
  define a where "a = \<bar>x\<bar>"
  define E where "E = max (expo a) (- 1022)"
  define q where "q = (2::rat) powi (E - 52)"
  define r where "r = round_half_even (a / q)"
  have a: "0 < a" using False by (simp add: a_def)
  have q: "0 < q" by (simp add: q_def)
  have qx: "quantum x = q" by (simp add: quantum_def q_def E_def a_def)
  have y: "rne x = sgn x * (of_int r * q)"
    using False by (simp add: rne_def qx r_def a_def)
  note eb = expo_bounds [OF a]
  have "expo a + 1 \<le> E + 1" by (simp add: E_def)
  then have "(2::rat) powi (expo a + 1) \<le> 2 powi (E + 1)"
    by (intro power_int_increasing) simp_all
  with eb have "a < 2 powi (E + 1)" by linarith
  also have "\<dots> = 2 ^ 53 * q"
    unfolding q_def by (rule powi_succ)
  finally have "a / q < 2 ^ 53" using q by (simp add: field_simps)
  then have "a / q \<le> of_int (2 ^ 53)" by simp
  then have r_le: "r \<le> 2 ^ 53" unfolding r_def by (rule round_half_even_le)
  have "(0::rat) \<le> a / q" using a q by simp
  then have "of_int 0 \<le> a / q" by simp
  then have r_ge: "0 \<le> r" unfolding r_def by (rule round_half_even_ge)
  show ?thesis
  proof (cases "r = 0")
    case True
    then show ?thesis by (simp add: y)
  next
    case False
    with r_ge have r_pos: "0 < r" by simp
    have ay: "\<bar>rne x\<bar> = of_int r * q"
      using r_pos q \<open>x \<noteq> 0\<close> by (simp add: y abs_mult)
    show ?thesis
    proof (cases "r = 2 ^ 53")
      case True
      have "\<bar>rne x\<bar> = 2 powi (E + 1)"
        unfolding powi_succ by (simp add: ay True q_def)
      moreover have "- 1022 \<le> E" by (simp add: E_def)
      ultimately have "quantum (rne x) = 2 powi (E - 51)"
        by (simp add: quantum_def max_def)
      also have "\<dots> = 2 * q"
        using power_int_add [of "2::rat" "E - 52" 1] by (simp add: q_def)
      finally have "rne x / quantum (rne x) = sgn x * of_int (2 ^ 52)"
        using q by (simp add: y True)
      moreover have "sgn x = 1 \<or> sgn x = - 1"
        using \<open>x \<noteq> 0\<close> by (cases "0 < x") simp_all
      ultimately show ?thesis by auto
    next
      case False
      with r_le have "r < 2 ^ 53" by simp
      then have "(of_int r :: rat) < of_int (2 ^ 53)" by (simp only: of_int_less_iff)
      then have "of_int r * q < 2 ^ 53 * q" using q by simp
      also have "\<dots> = 2 powi (E + 1)"
        unfolding q_def by (rule powi_succ [symmetric])
      finally have up: "\<bar>rne x\<bar> < 2 powi (E + 1)" by (simp add: ay)
      have yp: "0 < \<bar>rne x\<bar>" using r_pos q by (simp add: ay)
      note yb = expo_bounds [OF yp]
      from yb up have "(2::rat) powi expo \<bar>rne x\<bar> < 2 powi (E + 1)" by linarith
      then have le: "expo \<bar>rne x\<bar> \<le> E" using powi_less_imp by fastforce
      have "max (expo \<bar>rne x\<bar>) (- 1022) = E"
      proof (cases "E = - 1022")
        case True
        with le show ?thesis by simp
      next
        case False
        then have E: "E = expo a" and big: "- 1022 < E" by (simp_all add: E_def max_def split: if_splits)
        from eb have "2 powi E \<le> a" by (simp add: E)
        also have "2 powi E = 2 ^ 52 * q"
          unfolding q_def by (rule powi_same)
        finally have "of_int (2 ^ 52) \<le> a / q" using q by (simp add: field_simps)
        then have "2 ^ 52 \<le> r" unfolding r_def by (rule round_half_even_ge)
        then have "(of_int (2 ^ 52) :: rat) \<le> of_int r" by (simp only: of_int_le_iff)
        then have "2 ^ 52 * q \<le> of_int r * q" using q by simp
        also have "2 ^ 52 * q = 2 powi E"
          unfolding q_def by (rule powi_same [symmetric])
        finally have "2 powi E \<le> \<bar>rne x\<bar>" by (simp add: ay)
        with yb have "(2::rat) powi E < 2 powi (expo \<bar>rne x\<bar> + 1)" by linarith
        then have "E < expo \<bar>rne x\<bar> + 1" by (rule powi_less_imp)
        with le have "expo \<bar>rne x\<bar> = E" by simp
        with big show ?thesis by simp
      qed
      then have "quantum (rne x) = q" by (simp add: quantum_def q_def)
      then have "rne x / quantum (rne x) = sgn x * of_int r"
        using q by (simp add: y)
      moreover have "sgn x = 1 \<or> sgn x = - 1"
        using \<open>x \<noteq> 0\<close> by (cases "0 < x") simp_all
      ultimately show ?thesis by auto
    qed
  qed
qed

lemma rne_idem [simp]: "rne (rne x) = rne x"
  by (rule rne_exact) (rule rne_quantum)

lemma rne_nonneg: "0 \<le> x \<Longrightarrow> 0 \<le> rne x"
proof (cases "x = 0")
  case True
  then show ?thesis by simp
next
  case False
  assume "0 \<le> x"
  with False have x: "0 < x" by simp
  have "(0::rat) \<le> \<bar>x\<bar> / quantum x"
    using quantum_pos [of x] by (intro divide_nonneg_pos) simp_all
  then have "of_int 0 \<le> \<bar>x\<bar> / quantum x" by simp
  then have "0 \<le> round_half_even (\<bar>x\<bar> / quantum x)" by (rule round_half_even_ge)
  then have "0 \<le> (of_int (round_half_even (\<bar>x\<bar> / quantum x)) :: rat)" by simp
  then have "0 \<le> of_int (round_half_even (\<bar>x\<bar> / quantum x)) * quantum x"
    using quantum_pos [of x] by (intro mult_nonneg_nonneg) simp_all
  then show ?thesis using x by (simp add: rne_def)
qed

lemma rne_minus: "rne (- x) = - rne x"
  by (simp add: rne_def quantum_def)

lemma rne_nonpos: "x \<le> 0 \<Longrightarrow> rne x \<le> 0"
  using rne_nonneg [of "- x"] by (simp add: rne_minus)

lemma is_double_rne: "\<bar>rne x\<bar> \<le> max_double \<Longrightarrow> is_double (rne x)"
  by (simp add: is_double_def)

lemma is_double_0 [simp]: "is_double 0"
  by (simp add: is_double_def max_double_def)

lemma is_double_minus [simp]: "is_double (- x) \<longleftrightarrow> is_double x"
  by (auto simp: is_double_def rne_minus)

text \<open>Every m * 2^j with |m| < 2^53 and -1074 <= j <= 971 is a double.\<close>

lemma is_double_scaled:
  assumes m: "\<bar>m\<bar> < 2 ^ 53" and j: "- 1074 \<le> j" "j \<le> 971"
  shows "is_double (of_int m * 2 powi j)"
proof (cases "m = 0")
  case True
  then show ?thesis by simp
next
  case False
  define x where "x = (of_int m :: rat) * 2 powi j"
  have x0: "x \<noteq> 0" using False by (simp add: x_def)
  then have ax: "0 < \<bar>x\<bar>" by simp
  have "\<bar>x\<bar> = of_int \<bar>m\<bar> * 2 powi j" by (simp add: x_def abs_mult)
  moreover have "(of_int \<bar>m\<bar> :: rat) < of_int (2 ^ 53)" using m by (simp only: of_int_less_iff)
  ultimately have "\<bar>x\<bar> < 2 ^ 53 * 2 powi j" by simp
  then have up: "\<bar>x\<bar> < 2 powi (j + 53)" by (simp add: powi_53)
  note b = expo_bounds [OF ax]
  from b up have "(2::rat) powi expo \<bar>x\<bar> < 2 powi (j + 53)" by linarith
  then have "expo \<bar>x\<bar> < j + 53" by (rule powi_less_imp)
  with j have "max (expo \<bar>x\<bar>) (- 1022) - 52 \<le> j" by simp
  then obtain d where d: "j = (max (expo \<bar>x\<bar>) (- 1022) - 52) + int d"
    by (metis zle_iff_zadd)
  have "2 powi j = quantum x * 2 ^ d"
    by (subst d) (simp add: quantum_def power_int_add)
  then have "x = of_int (m * 2 ^ d) * quantum x"
    unfolding x_def [symmetric] by (simp add: x_def mult.commute)
  moreover have "quantum x \<noteq> 0" by simp
  ultimately have "x / quantum x = of_int (m * 2 ^ d)"
    by (metis nonzero_mult_div_cancel_right)
  then have "x / quantum x \<in> \<int>" by (simp only: Ints_of_int)
  then have ex: "rne x = x" by (rule rne_exact)
  from m have "\<bar>m\<bar> \<le> 2 ^ 53 - 1" by simp
  then have "(of_int \<bar>m\<bar> :: rat) \<le> of_int (2 ^ 53 - 1)" by (simp only: of_int_le_iff)
  moreover have "(2::rat) powi j \<le> 2 powi 971" using j by (intro power_int_increasing) simp_all
  ultimately have "of_int \<bar>m\<bar> * 2 powi j \<le> (of_int (2 ^ 53 - 1) :: rat) * 2 powi 971"
    by (intro mult_mono) simp_all
  then have "\<bar>x\<bar> \<le> max_double" by (simp add: x_def abs_mult max_double_def)
  with ex show ?thesis by (simp add: is_double_def x_def)
qed

lemma is_double_int: "x \<in> \<int> \<Longrightarrow> \<bar>x\<bar> < 2 ^ 53 \<Longrightarrow> is_double x"
proof -
  assume "x \<in> \<int>" and b: "\<bar>x\<bar> < 2 ^ 53"
  then obtain m where x: "x = of_int m" by (auto elim: Ints_cases)
  with b have "(of_int \<bar>m\<bar> :: rat) < of_int (2 ^ 53)" by simp
  then have "\<bar>m\<bar> < 2 ^ 53" by (simp only: of_int_less_iff)
  then have "is_double (of_int m * 2 powi 0)" by (rule is_double_scaled) simp_all
  then show ?thesis by (simp add: x)
qed

lemma rne_at:
  assumes "2 powi e \<le> \<bar>x\<bar>" and "\<bar>x\<bar> < 2 powi (e + 1)"
  shows "rne x = sgn x * (of_int (round_half_even (\<bar>x\<bar> / 2 powi (max e (- 1022) - 52)))
                           * 2 powi (max e (- 1022) - 52))"
proof -
  have "expo \<bar>x\<bar> = e" using assms by (rule expo_unique)
  moreover have "0 < (2::rat) powi e" by simp
  with assms(1) have "0 < \<bar>x\<bar>" by linarith
  then have "x \<noteq> 0" by simp
  ultimately show ?thesis by (simp add: rne_def quantum_def)
qed

lemma floor_rat_numeral [simp]:
  "\<lfloor>(numeral a :: rat) / numeral b\<rfloor> = numeral a div numeral b"
  using floor_divide_of_int_eq [of "numeral a" "numeral b", where ?'a = rat] by simp

lemma floor_rat_one_numeral [simp]:
  "\<lfloor>(1 :: rat) / numeral b\<rfloor> = 1 div numeral b"
  using floor_divide_of_int_eq [of 1 "numeral b", where ?'a = rat] by simp

lemma val_double [simp]: "is_double (val a)"
  using val [of a] by simp

lemma val_mk [simp]: "is_double x \<Longrightarrow> val (mk_double x) = x"
  by (simp add: mk_double_inverse)

lemma dbl_exact: "is_double x \<Longrightarrow> dbl x = Finite (mk_double x)"
  by (auto simp: dbl_def is_double_def Let_def)

lemma dbl_val [simp]: "dbl (val a) = Finite a"
  by (simp add: dbl_exact val_inverse)

lemma dbl_0 [simp]: "dbl 0 = 0"
  by (simp add: dbl_exact zero_number_def)

lemma dbl_rne [simp]: "dbl (rne x) = dbl x"
  by (simp add: dbl_def)

lemma max_double_pos: "0 < max_double"
  by (simp add: max_double_def)

lemma dbl_nonneg: "0 \<le> x \<Longrightarrow> 0 \<le> dbl x"
proof -
  assume "0 \<le> x"
  then have y: "0 \<le> rne x" by (rule rne_nonneg)
  show ?thesis
  proof (cases "max_double < rne x")
    case True
    then show ?thesis by (simp add: dbl_def less_eq_number_def zero_number_def)
  next
    case False
    with y max_double_pos have "\<bar>rne x\<bar> \<le> max_double" by simp
    then have "is_double (rne x)" by (rule is_double_rne)
    with False y max_double_pos show ?thesis
      by (simp add: dbl_def less_eq_number_def zero_number_def)
  qed
qed

lemma dbl_nonpos: "x \<le> 0 \<Longrightarrow> dbl x \<le> 0"
proof -
  assume "x \<le> 0"
  then have y: "rne x \<le> 0" by (rule rne_nonpos)
  show ?thesis
  proof (cases "rne x < - max_double")
    case True
    with y max_double_pos show ?thesis
      by (simp add: dbl_def less_eq_number_def zero_number_def)
  next
    case False
    with y max_double_pos have "\<bar>rne x\<bar> \<le> max_double" by simp
    then have "is_double (rne x)" by (rule is_double_rne)
    with False y max_double_pos show ?thesis
      by (simp add: dbl_def less_eq_number_def zero_number_def)
  qed
qed

lemma Finite_le [simp]: "Finite a \<le> Finite b \<longleftrightarrow> val a \<le> val b"
  by (simp add: less_eq_number_def)

lemma Finite_less [simp]: "Finite a < Finite b \<longleftrightarrow> val a < val b"
  by (auto simp: less_number_def)

lemma number_order_simps [simp]:
  "a \<le> PosInfinity" "NegInfinity \<le> a"
  "PosInfinity \<le> a \<longleftrightarrow> a = PosInfinity"
  "a \<le> NegInfinity \<longleftrightarrow> a = NegInfinity"
  "Finite x < PosInfinity" "NegInfinity < Finite x" "NegInfinity < PosInfinity"
  "\<not> PosInfinity < a" "\<not> a < NegInfinity"
  by (cases a; simp add: less_eq_number_def less_number_def)+

lemma zero_le_Finite [simp]: "0 \<le> Finite a \<longleftrightarrow> 0 \<le> val a"
  by (simp add: zero_number_def)

lemma Finite_le_zero [simp]: "Finite a \<le> 0 \<longleftrightarrow> val a \<le> 0"
  by (simp add: zero_number_def)

lemma zero_less_Finite [simp]: "0 < Finite a \<longleftrightarrow> 0 < val a"
  by (simp add: zero_number_def)

lemma Finite_less_zero [simp]: "Finite a < 0 \<longleftrightarrow> val a < 0"
  by (simp add: zero_number_def)

lemma zero_order_simps [simp]:
  "(0::number) < PosInfinity" "NegInfinity < (0::number)"
  "(0::number) \<noteq> PosInfinity" "(0::number) \<noteq> NegInfinity"
  "PosInfinity \<noteq> (0::number)" "NegInfinity \<noteq> (0::number)"
  by (simp_all add: zero_number_def)

lemma Finite_eq_zero [simp]: "Finite a = 0 \<longleftrightarrow> val a = 0"
  using val_inject [of a "mk_double 0"] by (simp add: zero_number_def)

lemma zero_eq_Finite [simp]: "0 = Finite a \<longleftrightarrow> val a = 0"
  using Finite_eq_zero [of a] by (simp only: eq_commute)

lemma val_neg [simp]: "val (mk_double (- val a)) = - val a"
  by simp

lemma js_sub_nonneg: "b \<le> a \<Longrightarrow> js_sub a b = Some c \<Longrightarrow> 0 \<le> c"
  by (cases a; cases b) (auto simp: js_sub_def intro: dbl_nonneg)

lemma js_add_nonneg: "0 \<le> a \<Longrightarrow> 0 \<le> b \<Longrightarrow> js_add a b = Some c \<Longrightarrow> 0 \<le> c"
  by (cases a; cases b) (auto intro: dbl_nonneg)

lemma js_mul_nonneg: "0 \<le> a \<Longrightarrow> 0 \<le> b \<Longrightarrow> js_mul a b = Some c \<Longrightarrow> 0 \<le> c"
  by (cases a; cases b) (auto simp: infinite_times_def intro: dbl_nonneg split: if_splits)

lemma is_double_numeral: "(numeral n :: rat) < 2 ^ 53 \<Longrightarrow> is_double (numeral n)"
  by (rule is_double_int) simp_all

lemma is_double_1 [simp]: "is_double 1"
  by (rule is_double_int) simp_all

lemma is_double_of_int: "\<bar>n\<bar> < 2 ^ 53 \<Longrightarrow> is_double (of_int n)"
proof (rule is_double_int)
  assume "\<bar>n\<bar> < 2 ^ 53"
  then have "(of_int \<bar>n\<bar> :: rat) < of_int (2 ^ 53)" by (simp only: of_int_less_iff)
  then show "\<bar>of_int n :: rat\<bar> < 2 ^ 53" by simp
qed simp

lemma dbl_le_iff: "is_double x \<Longrightarrow> is_double y \<Longrightarrow> dbl x \<le> dbl y \<longleftrightarrow> x \<le> y"
  by (simp add: dbl_exact)

lemma dbl_less_iff: "is_double x \<Longrightarrow> is_double y \<Longrightarrow> dbl x < dbl y \<longleftrightarrow> x < y"
  by (simp add: dbl_exact)

lemma dbl_eq_iff: "is_double x \<Longrightarrow> is_double y \<Longrightarrow> dbl x = dbl y \<longleftrightarrow> x = y"
  by (simp add: dbl_exact mk_double_inject)

lemma zero_le_dbl: "is_double x \<Longrightarrow> 0 \<le> dbl x \<longleftrightarrow> 0 \<le> x"
  by (simp add: dbl_exact)

lemma dbl_less_zero: "is_double x \<Longrightarrow> dbl x < 0 \<longleftrightarrow> x < 0"
  by (simp add: dbl_exact)

lemma dbl_eq_zero: "is_double x \<Longrightarrow> dbl x = 0 \<longleftrightarrow> x = 0"
  by (simp add: dbl_exact)

lemma zero_eq_dbl: "is_double x \<Longrightarrow> 0 = dbl x \<longleftrightarrow> x = 0"
  by (simp add: dbl_exact)

lemma finite_dbl: "is_double x \<Longrightarrow> finite_number (dbl x)"
  by (simp add: dbl_exact)

lemma rational_of_dbl: "is_double x \<Longrightarrow> rational_of (dbl x) = Some x"
  by (simp add: dbl_exact)

lemma js_add_dbl: "is_double x \<Longrightarrow> is_double y \<Longrightarrow> js_add (dbl x) (dbl y) = Some (dbl (x + y))"
  by (simp add: dbl_exact)

lemma js_sub_dbl: "is_double x \<Longrightarrow> is_double y \<Longrightarrow> js_sub (dbl x) (dbl y) = Some (dbl (x - y))"
  by (simp add: dbl_exact js_sub_def)

lemma js_mul_dbl: "is_double x \<Longrightarrow> is_double y \<Longrightarrow> js_mul (dbl x) (dbl y) = Some (dbl (x * y))"
  by (simp add: dbl_exact)

lemmas number_eval =
  is_double_numeral dbl_le_iff dbl_less_iff dbl_eq_iff zero_le_dbl dbl_less_zero
  dbl_eq_zero zero_eq_dbl finite_dbl rational_of_dbl js_add_dbl js_sub_dbl js_mul_dbl
  js_plus_def js_minus_def js_times_def js_less_def

text \<open>Subtraction and addition of a finite operand are never \<^verbatim>\<open>NaN\<close>.\<close>

lemma js_add_finite: "finite_number b \<Longrightarrow> \<exists>c. js_add a b = Some c"
  by (cases a; cases b) simp_all

lemma js_sub_finite: "finite_number a \<Longrightarrow> \<exists>c. js_sub a b = Some c"
  by (cases a; cases b) (simp_all add: js_sub_def)

lemma js_sub_Finite:
  "js_sub (Finite a) (Finite b) = Some (dbl (val a - val b))"
  by (simp add: js_sub_def)

lemma js_sub_self: "finite_number a \<Longrightarrow> js_sub a a = Some 0"
  by (cases a) (simp_all add: js_sub_def)

text \<open>The Numbers of the examples that are not integers below \<open>2^53\<close>.\<close>

lemma is_double_1e16: "is_double 10000000000000000"
  using is_double_scaled [of 152587890625 16] by simp

lemma is_double_1e17: "is_double 100000000000000000"
  using is_double_scaled [of 762939453125 17] by simp

lemma rne_1e16_plus_1: "rne 10000000000000001 = 10000000000000000"
  by (subst rne_at [where e = 53]) (simp_all add: round_half_even_def Let_def)

lemma rne_1e17_minus_30: "rne 99999999999999970 = 99999999999999968"
  by (subst rne_at [where e = 56]) (simp_all add: round_half_even_def Let_def)

lemma is_double_1e17_minus_32: "is_double 99999999999999968"
  using is_double_scaled [of 3124999999999999 5] by simp

lemma rne_7_10: "rne (7 / 10) = 3152519739159347 / 4503599627370496"
  by (subst rne_at [where e = "- 1"]) (simp_all add: round_half_even_def Let_def)

lemma is_double_7_10: "is_double (3152519739159347 / 4503599627370496)"
  using is_double_scaled [of 3152519739159347 "- 52"] by (simp add: power_int_minus)

lemma rne_7_10_times_3:
  "rne (3152519739159347 / 4503599627370496 * 3) = 1182194902184755 / 562949953421312"
  by (subst rne_at [where e = 1]) (simp_all add: round_half_even_def Let_def)

lemma rne_21_10: "rne (20999999999999996 / 10000000000000000)
    = 1182194902184755 / 562949953421312"
  by (subst rne_at [where e = 1]) (simp_all add: round_half_even_def Let_def)

lemma is_double_21_10: "is_double (1182194902184755 / 562949953421312)"
  using is_double_scaled [of 1182194902184755 "- 49"] by (simp add: power_int_minus)

lemma dbl_7_10: "dbl (7 / 10) = dbl (3152519739159347 / 4503599627370496)"
  using dbl_rne [of "7 / 10"] by (simp only: rne_7_10)

lemma dbl_21_10: "dbl (20999999999999996 / 10000000000000000)
    = dbl (1182194902184755 / 562949953421312)"
  using dbl_rne [of "20999999999999996 / 10000000000000000"] by (simp only: rne_21_10)

lemma dbl_7_10_times_3:
  "dbl (3152519739159347 / 4503599627370496 * 3) = dbl (1182194902184755 / 562949953421312)"
  using dbl_rne [of "3152519739159347 / 4503599627370496 * 3"]
  by (simp only: rne_7_10_times_3)

lemma dbl_1e16_plus_1: "dbl 10000000000000001 = dbl 10000000000000000"
  using dbl_rne [of 10000000000000001] by (simp only: rne_1e16_plus_1)

lemma dbl_1e17_minus_30: "dbl 99999999999999970 = dbl 99999999999999968"
  using dbl_rne [of 99999999999999970] by (simp only: rne_1e17_minus_30)

lemma rne_1_10: "rne (1 / 10) = 3602879701896397 / 36028797018963968"
  by (subst rne_at [where e = "- 4"]) (simp_all add: round_half_even_def Let_def)

lemma is_double_1_10: "is_double (3602879701896397 / 36028797018963968)"
  using is_double_scaled [of 3602879701896397 "- 55"] by (simp add: power_int_minus)

lemma rne_1_10_times_3:
  "rne (3602879701896397 / 36028797018963968 * 3) = 1351079888211149 / 4503599627370496"
  by (subst rne_at [where e = "- 2"]) (simp_all add: round_half_even_def Let_def)

lemma is_double_1_10_times_3: "is_double (1351079888211149 / 4503599627370496)"
  using is_double_scaled [of 1351079888211149 "- 52"] by (simp add: power_int_minus)

lemma rne_3_10: "rne (3 / 10) = 5404319552844595 / 18014398509481984"
  by (subst rne_at [where e = "- 2"]) (simp_all add: round_half_even_def Let_def)

lemma is_double_3_10: "is_double (5404319552844595 / 18014398509481984)"
  using is_double_scaled [of 5404319552844595 "- 54"] by (simp add: power_int_minus)

lemma dbl_1_10: "dbl (1 / 10) = dbl (3602879701896397 / 36028797018963968)"
  using dbl_rne [of "1 / 10"] by (simp only: rne_1_10)

lemma dbl_1_10_times_3:
  "dbl (3602879701896397 / 36028797018963968 * 3) = dbl (1351079888211149 / 4503599627370496)"
  using dbl_rne [of "3602879701896397 / 36028797018963968 * 3"]
  by (simp only: rne_1_10_times_3)

lemma dbl_3_10: "dbl (3 / 10) = dbl (5404319552844595 / 18014398509481984)"
  using dbl_rne [of "3 / 10"] by (simp only: rne_3_10)

subsection \<open>Fare lookup\<close>













subsection \<open>Balance ledger\<close>

lemma save_user_nonneg:
  assumes "nonneg_balances s" and "save_user d s = Inr s'"
  shows "nonneg_balances s'"
  using assms
  by (auto simp: save_user_def nonneg_balances_def write_user_def js_less_def
      split: list.splits if_splits option.splits)

lemma await_user_nonneg:
  "nonneg_balances s \<Longrightarrow> await_user e s = Inr (d, s') \<Longrightarrow> nonneg_balances s'"
  by (auto simp: await_user_def split: effect.splits sum.splits dest: save_user_nonneg)

lemma depositMoney_nonneg:
  "nonneg_balances s \<Longrightarrow> nonneg_balances (snd (depositMoney rt uid b s))"
  by (auto simp: depositMoney_def split: list.splits option.splits sum.splits
      dest: await_user_nonneg)

lemma debit_nonneg:
  "nonneg_balances s \<Longrightarrow> debit uid a s = Inr s' \<Longrightarrow> nonneg_balances s'"
  by (cases "findById_user s uid";
      cases "await_user (deductBalance a (the (findById_user s uid))) s")
     (auto simp: debit_def dest: await_user_nonneg)

lemma apply_ledger_op_nonneg:
  "nonneg_balances s \<Longrightarrow> nonneg_balances (apply_ledger_op rt x s)"
  by (cases x) (auto simp: depositMoney_nonneg split: sum.splits dest: debit_nonneg)

lemma run_ledger_nonneg:
  "nonneg_balances s \<Longrightarrow> nonneg_balances (run_ledger rt xs s)"
  by (induction xs arbitrary: s) (simp_all add: apply_ledger_op_nonneg)

lemma debit_insufficient:
  assumes "users s uid = Some u" and "balance u < a"
  shows "debit uid (Some a) s = Inl (Error ''Insufficient balance'')"
  using assms
  by (simp add: debit_def findById_user_def hydrate_user_def selected_def deductBalance_def
      js_less_def await_user_def)

text \<open>
  C1: when every stored balance is non-negative, it is so again after any sequence of
  deposits and debits, whichever users they address, whatever the amounts are (numbers
  or strings, and whatever the runtime makes of the strings); and a debit of more than
  the balance of its user throws \<^verbatim>\<open>Insufficient balance\<close> and leaves the store, hence
  the balance, as it was.
\<close>

theorem ledger_balance_nonneg:
  assumes "nonneg_balances s"
  shows "nonneg_balances (run_ledger rt ops s)
       \<and> (\<forall>uid u a. users s uid = Some u \<and> balance u < a \<longrightarrow>
             debit uid (Some a) s = Inl (Error ''Insufficient balance'')
             \<and> apply_ledger_op rt (Debit uid a) s = s)"
  using assms by (simp add: run_ledger_nonneg debit_insufficient)

theorem ledger_balance_nonneg_witness:
  "nonneg_balances ledger_store
   \<and> nonneg_balances (run_ledger example_runtime
        [Deposit 7 string_deposit, Deposit 7 (deposit_of 50), Debit 7 (dbl 120),
         Debit 7 (dbl 20000)] ledger_store)
   \<and> debit 7 (Some (dbl 200)) ledger_store = Inl (Error ''Insufficient balance'')
   \<and> apply_ledger_op example_runtime (Debit 7 (dbl 200)) ledger_store = ledger_store"
proof -
  have ok: "nonneg_balances ledger_store"
    by (simp add: nonneg_balances_def ledger_store_def alice_def number_eval)
  have u: "users ledger_store 7 = Some alice \<and> balance alice < dbl 200"
    by (simp add: ledger_store_def alice_def number_eval)
  show ?thesis
    using ok u ledger_balance_nonneg [OF ok,
      of example_runtime "[Deposit 7 string_deposit, Deposit 7 (deposit_of 50),
         Debit 7 (dbl 120), Debit 7 (dbl 20000)]"]
    by blast
qed

lemma depositValidation_amount:
  "optional_fields_valid b \<Longrightarrow>
     depositValidation rt b =
       (if amount_isFloat rt (amount b) then [] else [''Amount must be at least 1''])"
  by (auto simp: depositValidation_def optional_fields_valid_def split: option.splits)

lemma save_balance:
  assumes "users s uid = Some u" and "0 \<le> nb"
  shows "await_user (Saves (set_balance (Some nb) (hydrate_user None uid u))) s =
           Inr (set_balance (Some nb) (hydrate_user None uid u),
                s\<lparr>users := (users s)(uid \<mapsto> u\<lparr>balance := nb\<rparr>)\<rparr>)"
proof (cases "nb = balance u")
  case True
  have "(users s)(uid \<mapsto> u) = users s" using assms(1) by (rule map_upd_triv)
  with True show ?thesis
    by (simp add: hydrate_user_def selected_def set_balance_def await_user_def save_user_def)
next
  case False
  with assms show ?thesis
    by (simp add: hydrate_user_def selected_def set_balance_def await_user_def save_user_def
        write_user_def js_less_def not_less)
qed

lemma d_balance_set_balance:
  "d_balance (set_balance (Some nb) (hydrate_user None uid u)) = Some nb"
  by (simp add: set_balance_def hydrate_user_def selected_def)

lemma deposit_saved:
  assumes "users s uid = Some u" and "optional_fields_valid b"
    and "amount_isFloat rt (amount b)"
    and "plus_json rt (Some (balance u)) (amount b) = Some nb" and "0 \<le> nb"
  shows "depositMoney rt uid b s =
           (SuccessResponse 200 ''Deposit successful'' (Some nb),
            s\<lparr>users := (users s)(uid \<mapsto> u\<lparr>balance := nb\<rparr>)\<rparr>)"
proof -
  have d: "findById_user s uid = Some (hydrate_user None uid u)"
    by (simp add: findById_user_def assms(1))
  have b: "d_balance (hydrate_user None uid u) = Some (balance u)"
    by (simp add: hydrate_user_def selected_def)
  have "addBalance rt (amount b) (hydrate_user None uid u) =
      Saves (set_balance (Some nb) (hydrate_user None uid u))"
    by (simp add: addBalance_def b assms(4))
  then show ?thesis
    using save_balance [OF assms(1,5)] d assms(2,3)
    by (simp add: depositMoney_def depositValidation_amount d_balance_set_balance)
qed

lemma deposit_refused:
  assumes "optional_fields_valid b" and "\<not> amount_isFloat rt (amount b)"
  shows "depositMoney rt uid b s = (ErrorResponse 400 (Text ''Amount must be at least 1''), s)"
  using assms by (simp add: depositMoney_def depositValidation_amount)

text \<open>
  A deposit whose amount is a string that the validator accepts: the text of the
  balance and the string are joined, and the balance becomes the number that the joined
  text denotes. With the balance 100 and the amount \<^verbatim>\<open>"50"\<close> that is 10050.
\<close>

lemma deposit_string_concatenates:
  assumes "users s uid = Some u" and "optional_fields_valid b"
    and "amount b = JString str" and "isFloat rt str (dbl 1)"
    and "toNumber rt (toString rt (balance u) @ str) = Some nb" and "0 \<le> nb"
  shows "depositMoney rt uid b s =
           (SuccessResponse 200 ''Deposit successful'' (Some nb),
            s\<lparr>users := (users s)(uid \<mapsto> u\<lparr>balance := nb\<rparr>)\<rparr>)"
  using assms by (intro deposit_saved) (simp_all add: amount_isFloat_def plus_json_def)

lemma deposit_string_50:
  "depositMoney example_runtime 7 string_deposit ledger_store =
     (SuccessResponse 200 ''Deposit successful'' (Some (dbl 10050)),
      ledger_store\<lparr>users := [7 \<mapsto> alice\<lparr>balance := dbl 10050\<rparr>]\<rparr>)"
proof -
  have "depositMoney example_runtime 7 string_deposit ledger_store =
     (SuccessResponse 200 ''Deposit successful'' (Some (dbl 10050)),
      ledger_store\<lparr>users := (users ledger_store)(7 \<mapsto> alice\<lparr>balance := dbl 10050\<rparr>)\<rparr>)"
    by (intro deposit_string_concatenates [where str = "''50''"])
       (simp_all add: ledger_store_def alice_def optional_fields_valid_def number_eval
          string_deposit_def example_runtime_def)
  then show ?thesis by (simp add: ledger_store_def)
qed

text \<open>
  C8, as stated: a deposit succeeds if and only if its amount is positive. This fails at
  the amount 1/2, which is positive and is refused by \<^verbatim>\<open>isFloat({ min: 1 })\<close>.
\<close>

theorem deposit_half_counterexample:
  "amount half_deposit = JNumber (dbl (1 / 2)) \<and> 0 < dbl (1 / 2)
   \<and> rational_of (dbl (1 / 2)) = Some (1 / 2)
   \<and> depositMoney example_runtime 7 half_deposit ledger_store
       = (ErrorResponse 400 (Text ''Amount must be at least 1''), ledger_store)"
proof -
  have h: "is_double (1 / 2)"
    using is_double_scaled [of 1 "- 1"] by (simp add: power_int_minus)
  have "\<not> dbl 1 \<le> dbl (1 / 2)"
    using h by (simp add: dbl_le_iff)
  then have "depositMoney example_runtime 7 half_deposit ledger_store
       = (ErrorResponse 400 (Text ''Amount must be at least 1''), ledger_store)"
    by (intro deposit_refused)
       (simp_all add: half_deposit_def deposit_of_def optional_fields_valid_def
          amount_isFloat_def)
  moreover have "0 < dbl (1 / 2)" using h by (simp add: dbl_exact)
  moreover have "rational_of (dbl (1 / 2)) = Some (1 / 2)" using h by (rule rational_of_dbl)
  ultimately show ?thesis by (simp add: half_deposit_def deposit_of_def)
qed

lemma deposit_cast_fails:
  assumes "users s uid = Some u" and "0 \<le> balance u" and "optional_fields_valid b"
    and "amount_isFloat rt (amount b)"
    and "plus_json rt (Some (balance u)) (amount b) = None
         \<or> (\<exists>nb. plus_json rt (Some (balance u)) (amount b) = Some nb \<and> nb < 0)"
  shows "depositMoney rt uid b s = (Unhandled (ValidationError ''balance''), s)"
proof -
  have d: "findById_user s uid = Some (hydrate_user None uid u)"
    by (simp add: findById_user_def assms(1))
  have b: "d_balance (hydrate_user None uid u) = Some (balance u)"
    by (simp add: hydrate_user_def selected_def)
  have "await_user (addBalance rt (amount b) (hydrate_user None uid u)) s
      = Inl (ValidationError ''balance'')"
  proof (cases "plus_json rt (Some (balance u)) (amount b)")
    case None
    then show ?thesis
      by (simp add: addBalance_def b set_balance_def await_user_def save_user_def
          hydrate_user_def selected_def)
  next
    case (Some nb)
    with assms(5) have neg: "nb < 0" by simp
    with assms(2) have "nb \<noteq> balance u" by auto
    with Some neg show ?thesis
      by (simp add: addBalance_def b set_balance_def await_user_def save_user_def
          hydrate_user_def selected_def js_less_def)
  qed
  then show ?thesis
    using d assms(3,4) by (simp add: depositMoney_def depositValidation_amount)
qed

text \<open>
  C8, amended, for an amount that is a JSON number: for a stored user with a
  non-negative balance and a request whose optional fields are valid, the deposit
  succeeds if and only if the amount is finite and at least 1. On success the stored
  balance is the sum of the old balance and the amount in double arithmetic, that is the
  double nearest to the exact sum (the old balance itself when the amount is below half
  the spacing of the doubles there), it is not negative, and nothing else changes;
  otherwise the answer is 400 \<^verbatim>\<open>Amount must be at least 1\<close> and the store is unchanged.
  What a string amount does is stated by \<open>deposit_string_concatenates\<close> and
  \<open>deposit_cast_fails\<close>.
\<close>

theorem deposit_at_least_one:
  assumes "users s uid = Some u" and "0 \<le> balance u" and "optional_fields_valid b"
    and "amount b = JNumber a"
  shows "(finite_number a \<and> dbl 1 \<le> a \<longrightarrow>
            (\<exists>nb. js_add (balance u) a = Some nb \<and> 0 \<le> nb
               \<and> depositMoney rt uid b s =
                   (SuccessResponse 200 ''Deposit successful'' (Some nb),
                    s\<lparr>users := (users s)(uid \<mapsto> u\<lparr>balance := nb\<rparr>)\<rparr>)))
       \<and> (\<not> (finite_number a \<and> dbl 1 \<le> a) \<longrightarrow>
            depositMoney rt uid b s = (ErrorResponse 400 (Text ''Amount must be at least 1''), s))"
proof (intro conjI impI)
  assume ok: "finite_number a \<and> dbl 1 \<le> a"
  then obtain nb where nb: "js_add (balance u) a = Some nb"
    using js_add_finite [of a "balance u"] by blast
  have "(0::number) \<le> dbl 1" by (simp add: zero_le_dbl)
  with ok have a0: "0 \<le> a" by (blast intro: order_trans)
  from assms(2) a0 nb have nn: "0 \<le> nb" by (rule js_add_nonneg)
  have "depositMoney rt uid b s =
      (SuccessResponse 200 ''Deposit successful'' (Some nb),
       s\<lparr>users := (users s)(uid \<mapsto> u\<lparr>balance := nb\<rparr>)\<rparr>)"
    using assms(1,3) _ _ nn
    by (rule deposit_saved) (simp_all add: assms(4) amount_isFloat_def ok plus_json_def
        js_plus_def nb)
  with nb nn show "\<exists>nb. js_add (balance u) a = Some nb \<and> 0 \<le> nb
               \<and> depositMoney rt uid b s =
                   (SuccessResponse 200 ''Deposit successful'' (Some nb),
                    s\<lparr>users := (users s)(uid \<mapsto> u\<lparr>balance := nb\<rparr>)\<rparr>)"
    by blast
next
  assume "\<not> (finite_number a \<and> dbl 1 \<le> a)"
  then show "depositMoney rt uid b s
      = (ErrorResponse 400 (Text ''Amount must be at least 1''), s)"
    using assms(3) by (intro deposit_refused) (simp_all add: assms(4) amount_isFloat_def)
qed

theorem deposit_at_least_one_witness:
  "depositMoney example_runtime 7
      \<lparr> amount = JNumber (dbl 50), dep_paymentMethod = Some ''card'',
        transactionId = Some ''tx 1'' \<rparr> ledger_store =
     (SuccessResponse 200 ''Deposit successful'' (Some (dbl 150)),
      ledger_store\<lparr>users := [7 \<mapsto> alice\<lparr>balance := dbl 150\<rparr>]\<rparr>)
   \<and> depositMoney example_runtime 7
      \<lparr> amount = JNumber 0, dep_paymentMethod = Some ''card'',
        transactionId = Some ''tx 1'' \<rparr> ledger_store
       = (ErrorResponse 400 (Text ''Amount must be at least 1''), ledger_store)
   \<and> depositMoney example_runtime 9 (deposit_of 1) carol_store =
     (SuccessResponse 200 ''Deposit successful'' (Some (dbl 10000000000000000)),
      carol_store)"
proof -
  have opt: "optional_fields_valid
      \<lparr> amount = v, dep_paymentMethod = Some ''card'', transactionId = Some ''tx 1'' \<rparr>"
    for v
    by (simp add: optional_fields_valid_def trim_def is_space_def)
  have a: "users ledger_store 7 = Some alice" "0 \<le> balance alice"
    by (simp_all add: ledger_store_def alice_def number_eval)
  have c: "users carol_store 9 = Some carol" "0 \<le> balance carol"
    "optional_fields_valid (deposit_of 1)" "amount (deposit_of 1) = JNumber (dbl 1)"
    by (simp_all add: carol_store_def carol_def deposit_of_def optional_fields_valid_def
        zero_le_dbl is_double_1e16)
  have add1: "js_add (balance alice) (dbl 50) = Some (dbl 150)"
    by (simp add: alice_def number_eval)
  have add2: "js_add (balance carol) (dbl 1) = Some (dbl 10000000000000000)"
    by (simp add: carol_def js_add_dbl is_double_1e16 dbl_1e16_plus_1)
  have same: "carol_store\<lparr>users := (users carol_store)
      (9 \<mapsto> carol\<lparr>balance := dbl 10000000000000000\<rparr>)\<rparr> = carol_store"
    by (simp add: carol_store_def carol_def)
  have z: "\<not> dbl 1 \<le> (0::number)"
    using dbl_le_iff [of 1 0] by simp
  show ?thesis
    using deposit_at_least_one [OF a opt, of "JNumber (dbl 50)" "dbl 50" example_runtime]
      deposit_at_least_one [OF a opt, of "JNumber 0" 0 example_runtime]
      deposit_at_least_one [OF c, of example_runtime]
    by (simp add: add1 add2 same z dbl_le_iff is_double_numeral finite_dbl ledger_store_def)
qed

subsection \<open>Issue\<close>

lemma createTripValidation_Nil:
  "createTripValidation b = [] \<longleftrightarrow>
     1 \<le> b_numberOfPassengers b \<and> b_numberOfPassengers b \<le> 10 \<and>
     (case b_paymentMethod b of None \<Rightarrow> True
      | Some m \<Rightarrow> m = ''balance'' \<or> m = ''cash'' \<or> m = ''card'')"
  by (auto simp: createTripValidation_def split: option.splits)

lemma passengers_double:
  assumes "1 \<le> n" and "n \<le> 10"
  shows "dbl (of_int n) = Finite (mk_double (of_int n))" and "is_double (of_int n)"
proof -
  from assms have "\<bar>n\<bar> < 2 ^ 53" by simp
  then show d: "is_double (of_int n)" by (rule is_double_of_int)
  then show "dbl (of_int n) = Finite (mk_double (of_int n))" by (rule dbl_exact)
qed

lemma total_of_defined:
  assumes "1 \<le> n" and "n \<le> 10"
  shows "\<exists>amt. total_of f n = Some amt"
proof -
  from assms have "(of_int n :: rat) \<noteq> 0" by simp
  then show ?thesis
    using passengers_double [OF assms]
    by (cases "f_fare f") (simp_all add: total_of_def infinite_times_def)
qed

lemma total_of_nonneg:
  assumes "0 \<le> f_fare f" and "1 \<le> n" and "total_of f n = Some amt"
  shows "0 \<le> amt"
proof -
  from assms(2) have "(0::rat) \<le> of_int n" by simp
  then have "0 \<le> dbl (of_int n)" by (rule dbl_nonneg)
  with assms(1) show ?thesis
    using assms(3) unfolding total_of_def by (rule js_mul_nonneg)
qed

text \<open>The total of a finite price is the exact product, rounded to the nearest double.\<close>

lemma total_of_Finite:
  assumes "f_fare f = Finite p" and "1 \<le> n" and "n \<le> 10"
  shows "total_of f n = Some (dbl (val p * of_int n))"
  using passengers_double [OF assms(2,3)] by (simp add: total_of_def assms(1))

lemma create_trip_new:
  assumes "0 \<le> price" and "1 \<le> n" and "n \<le> 10"
    and "pm = ''balance'' \<or> pm = ''cash'' \<or> pm = ''card''"
    and "code \<notin> set (map tripCode (trips s))"
    and "0 \<le> amt"
  shows "Trip_create uid a b price n (Some amt) pm code now s =
           Inr (length (trips s),
                s\<lparr>trips := trips s @ [new_trip uid a b price n amt pm code now]\<rparr>)"
  using assms
  by (auto simp: Trip_create_def create_trip_def validate_trip_def new_trip_def not_less)

lemma pay_balance:
  assumes "users s uid = Some u" and "amt \<le> balance u"
    and "js_sub (balance u) amt = Some nb"
  shows "pay ''balance'' (Some (hydrate_user None uid u)) (Some amt) s =
           Inr (s\<lparr>users := (users s)(uid \<mapsto> u\<lparr>balance := nb\<rparr>)\<rparr>)"
proof -
  from assms(2,3) have nn: "0 \<le> nb" by (rule js_sub_nonneg)
  have b: "d_balance (hydrate_user None uid u) = Some (balance u)"
    by (simp add: hydrate_user_def selected_def)
  have "deductBalance (Some amt) (hydrate_user None uid u) =
      Saves (set_balance (Some nb) (hydrate_user None uid u))"
    using assms(2,3) by (simp add: deductBalance_def b js_less_def js_minus_def not_less)
  then show ?thesis
    using save_balance [OF assms(1) nn] by (simp add: pay_def)
qed

lemma pay_other: "pm \<noteq> ''balance'' \<Longrightarrow> pay pm usr amt s = Inr s"
  by (simp add: pay_def)

lemma createTrip_from_balance:
  assumes valid: "createTripValidation b = []"
    and fare: "getFare (fares s) (fromStation b) (toStation b) ''regular'' tq = Some f"
    and price: "0 \<le> f_fare f"
    and usr: "users s uid = Some u"
    and pm: "(case b_paymentMethod b of None \<Rightarrow> ''balance'' | Some m \<Rightarrow> m) = ''balance''"
    and total: "total_of f (b_numberOfPassengers b) = Some amt"
    and le: "amt \<le> balance u"
    and sub: "js_sub (balance u) amt = Some nb"
    and fresh: "code \<notin> set (map tripCode (trips s))"
  shows "createTrip uid b tq tc code s =
     (SuccessResponse 201 ''Trip created successfully''
        (length (trips s),
         new_trip uid (fromStation b) (toStation b) (f_fare f) (b_numberOfPassengers b) amt
           ''balance'' code tc),
      s\<lparr>trips := trips s @
           [new_trip uid (fromStation b) (toStation b) (f_fare f) (b_numberOfPassengers b) amt
              ''balance'' code tc],
        users := (users s)(uid \<mapsto> u\<lparr>balance := nb\<rparr>)\<rparr>)"
proof -
  let ?n = "b_numberOfPassengers b"
  let ?t = "new_trip uid (fromStation b) (toStation b) (f_fare f) ?n amt ''balance'' code tc"
  let ?s1 = "s\<lparr>trips := trips s @ [?t]\<rparr>"
  from valid have n: "1 \<le> ?n" "?n \<le> 10"
    by (auto simp: createTripValidation_Nil)
  have nn: "0 \<le> amt" using price n(1) total by (rule total_of_nonneg)
  have cr: "Trip_create uid (fromStation b) (toStation b) (f_fare f) ?n (Some amt)
      ''balance'' code tc s = Inr (length (trips s), ?s1)"
    using price n _ fresh nn by (rule create_trip_new) simp
  have doc: "findById_user s uid = Some (hydrate_user None uid u)"
    by (simp add: findById_user_def usr)
  have ins: "insufficient ''balance'' (Some (hydrate_user None uid u)) (Some amt) = Inr False"
    using le by (simp add: insufficient_def hydrate_user_def selected_def js_less_def not_less)
  have p: "pay ''balance'' (Some (hydrate_user None uid u)) (Some amt) ?s1 =
      Inr (?s1\<lparr>users := (users ?s1)(uid \<mapsto> u\<lparr>balance := nb\<rparr>)\<rparr>)"
    by (rule pay_balance) (simp_all add: usr le sub)
  show ?thesis
    using valid fare pm doc ins cr p total by (simp add: createTrip_def Let_def)
qed

lemma createTrip_other_method:
  assumes valid: "createTripValidation b = []"
    and fare: "getFare (fares s) (fromStation b) (toStation b) ''regular'' tq = Some f"
    and price: "0 \<le> f_fare f"
    and pm: "(case b_paymentMethod b of None \<Rightarrow> ''balance'' | Some m \<Rightarrow> m) = pm"
    and other: "pm \<noteq> ''balance''"
    and total: "total_of f (b_numberOfPassengers b) = Some amt"
    and fresh: "code \<notin> set (map tripCode (trips s))"
  shows "createTrip uid b tq tc code s =
     (SuccessResponse 201 ''Trip created successfully''
        (length (trips s),
         new_trip uid (fromStation b) (toStation b) (f_fare f) (b_numberOfPassengers b) amt
           pm code tc),
      s\<lparr>trips := trips s @
           [new_trip uid (fromStation b) (toStation b) (f_fare f) (b_numberOfPassengers b) amt
              pm code tc]\<rparr>)"
proof -
  let ?n = "b_numberOfPassengers b"
  let ?t = "new_trip uid (fromStation b) (toStation b) (f_fare f) ?n amt pm code tc"
  from valid have n: "1 \<le> ?n" "?n \<le> 10"
    and pmv: "pm = ''balance'' \<or> pm = ''cash'' \<or> pm = ''card''"
    using pm by (auto simp: createTripValidation_Nil split: option.splits)
  have nn: "0 \<le> amt" using price n(1) total by (rule total_of_nonneg)
  have cr: "Trip_create uid (fromStation b) (toStation b) (f_fare f) ?n (Some amt)
      pm code tc s = Inr (length (trips s), s\<lparr>trips := trips s @ [?t]\<rparr>)"
    using price n pmv fresh nn by (rule create_trip_new)
  have ins: "insufficient pm (findById_user s uid) (Some amt) = Inr False"
    using other by (simp add: insufficient_def)
  show ?thesis
    using valid fare pm ins cr pay_other [OF other] total
    by (simp add: createTrip_def Let_def)
qed

text \<open>
  C2, as stated: Issue paid from a sufficient balance decreases the balance by the total
  amount. This fails in double arithmetic: Dave, whose balance is \<open>10^17\<close>, buys one
  passage at the fare 30; the request is answered 201 with the total amount 30, and
  the stored balance is 99999999999999968, which is \<open>10^17 - 32\<close>.
\<close>

theorem issue_debit_rounded_counterexample:
  "createTrip 10 one_by_balance 500 600 ''TRIP-0A1B2C3D'' dave_store =
     (SuccessResponse 201 ''Trip created successfully''
        (0, new_trip 10 1 2 (dbl 30) 1 (dbl 30) ''balance'' ''TRIP-0A1B2C3D'' 600),
      dave_store\<lparr>trips := [new_trip 10 1 2 (dbl 30) 1 (dbl 30) ''balance''
                               ''TRIP-0A1B2C3D'' 600],
        users := [10 \<mapsto> dave\<lparr>balance := dbl 99999999999999968\<rparr>]\<rparr>)
   \<and> rational_of (balance dave) = Some 100000000000000000
   \<and> rational_of (dbl 30) = Some 30
   \<and> rational_of (dbl 99999999999999968) = Some 99999999999999968
   \<and> (99999999999999968 :: rat) \<noteq> 100000000000000000 - 30"
proof -
  have valid: "createTripValidation one_by_balance = []"
    by (simp add: createTripValidation_def one_by_balance_def)
  have fare: "getFare (fares dave_store) (fromStation one_by_balance)
      (toStation one_by_balance) ''regular'' 500 = Some (two_hop_fares ! 0)"
    by (simp add: getFare_def getFare_query_def dave_store_def two_hop_fares_def
        one_by_balance_def)
  have price: "0 \<le> f_fare (two_hop_fares ! 0)"
    by (simp add: two_hop_fares_def number_eval)
  have usr: "users dave_store 10 = Some dave"
    by (simp add: dave_store_def)
  have pm: "(case b_paymentMethod one_by_balance of None \<Rightarrow> ''balance'' | Some m \<Rightarrow> m)
      = ''balance''"
    by (simp add: one_by_balance_def)
  have total: "total_of (two_hop_fares ! 0) (b_numberOfPassengers one_by_balance)
      = Some (dbl 30)"
    by (simp add: total_of_def two_hop_fares_def one_by_balance_def number_eval)
  have le: "dbl 30 \<le> balance dave"
    by (simp add: dave_def dbl_le_iff is_double_numeral is_double_1e17)
  have sub: "js_sub (balance dave) (dbl 30) = Some (dbl 99999999999999968)"
    by (simp add: dave_def js_sub_dbl is_double_numeral is_double_1e17 dbl_1e17_minus_30)
  have fresh: "''TRIP-0A1B2C3D'' \<notin> set (map tripCode (trips dave_store))"
    by (simp add: dave_store_def)
  have "createTrip 10 one_by_balance 500 600 ''TRIP-0A1B2C3D'' dave_store =
     (SuccessResponse 201 ''Trip created successfully''
        (0, new_trip 10 1 2 (dbl 30) 1 (dbl 30) ''balance'' ''TRIP-0A1B2C3D'' 600),
      dave_store\<lparr>trips := [new_trip 10 1 2 (dbl 30) 1 (dbl 30) ''balance''
                               ''TRIP-0A1B2C3D'' 600],
        users := [10 \<mapsto> dave\<lparr>balance := dbl 99999999999999968\<rparr>]\<rparr>)"
    using createTrip_from_balance [OF valid fare price usr pm total le sub fresh, of 600]
    by (simp add: dave_store_def two_hop_fares_def one_by_balance_def)
  moreover have "rational_of (balance dave) = Some 100000000000000000"
    by (simp add: dave_def rational_of_dbl is_double_1e17)
  moreover have "rational_of (dbl 30) = Some 30"
    by (simp add: rational_of_dbl is_double_numeral)
  moreover have "rational_of (dbl 99999999999999968) = Some 99999999999999968"
    by (simp add: rational_of_dbl is_double_1e17_minus_32)
  ultimately show ?thesis by simp
qed

text \<open>
  C2, amended: take a valid request, a fare that \<^verbatim>\<open>getFare\<close> finds for the two stations
  and the type \<^verbatim>\<open>'regular'\<close> (its price non-negative, as the Fare schema demands), a
  stored user and a generated trip code that no stored trip has; when the payment
  method is \<^verbatim>\<open>'balance'\<close>, let the balance be finite and not below the total, which is
  the product of price and passengers as a double. Then the handler answers 201 with a
  new trip, appended to the stored trips, whose \<^verbatim>\<open>totalAmount\<close> is that total, whose
  \<^verbatim>\<open>status\<close> is \<^verbatim>\<open>'created'\<close> and whose \<^verbatim>\<open>expiresAt\<close> is the clock reading at creation plus
  24 hours. With the method \<^verbatim>\<open>'balance'\<close> the balance of the user becomes, in the same
  call, the difference of balance and total as a double (the double nearest to the exact
  difference), which is not negative; with another method no user changes.
\<close>

theorem issue_creates_trip:
  assumes valid: "createTripValidation b = []"
    and fare: "getFare (fares s) (fromStation b) (toStation b) ''regular'' tq = Some f"
    and price: "0 \<le> f_fare f"
    and usr: "users s uid = Some u"
    and pm: "pm = (case b_paymentMethod b of None \<Rightarrow> ''balance'' | Some m \<Rightarrow> m)"
    and suff: "pm = ''balance'' \<longrightarrow> finite_number (balance u)
        \<and> (\<forall>amt. total_of f (b_numberOfPassengers b) = Some amt \<longrightarrow> amt \<le> balance u)"
    and fresh: "code \<notin> set (map tripCode (trips s))"
  shows "\<exists>t s' amt. total_of f (b_numberOfPassengers b) = Some amt
     \<and> createTrip uid b tq tc code s =
             (SuccessResponse 201 ''Trip created successfully'' (length (trips s), t), s')
     \<and> trips s' = trips s @ [t] \<and> fares s' = fares s
     \<and> t_user t = uid \<and> tripCode t = code \<and> totalAmount t = amt
     \<and> status t = Created \<and> expiresAt t = tc + 86400000
     \<and> (pm = ''balance'' \<longrightarrow>
           (\<exists>nb. js_sub (balance u) amt = Some nb \<and> 0 \<le> nb
              \<and> users s' = (users s)(uid \<mapsto> u\<lparr>balance := nb\<rparr>)))
     \<and> (pm \<noteq> ''balance'' \<longrightarrow> users s' = users s)"
proof -
  let ?n = "b_numberOfPassengers b"
  from valid have n: "1 \<le> ?n" "?n \<le> 10"
    by (auto simp: createTripValidation_Nil)
  from total_of_defined [OF n] obtain amt where total: "total_of f ?n = Some amt" ..
  let ?t = "new_trip uid (fromStation b) (toStation b) (f_fare f) ?n amt pm code tc"
  have fields: "t_user ?t = uid \<and> tripCode ?t = code \<and> totalAmount ?t = amt
      \<and> status ?t = Created \<and> expiresAt ?t = tc + 86400000"
    by (simp add: new_trip_def)
  show ?thesis
  proof (cases "pm = ''balance''")
    case True
    with suff total have le: "amt \<le> balance u" and fin: "finite_number (balance u)"
      by simp_all
    from js_sub_finite [OF fin] obtain nb where sub: "js_sub (balance u) amt = Some nb" ..
    from le sub have nn: "0 \<le> nb" by (rule js_sub_nonneg)
    have "createTrip uid b tq tc code s =
        (SuccessResponse 201 ''Trip created successfully'' (length (trips s), ?t),
         s\<lparr>trips := trips s @ [?t], users := (users s)(uid \<mapsto> u\<lparr>balance := nb\<rparr>)\<rparr>)"
      using createTrip_from_balance [OF valid fare price usr _ total le sub fresh, of tc]
        pm True by simp
    with fields True total sub nn show ?thesis by simp
  next
    case False
    have "createTrip uid b tq tc code s =
        (SuccessResponse 201 ''Trip created successfully'' (length (trips s), ?t),
         s\<lparr>trips := trips s @ [?t]\<rparr>)"
      using createTrip_other_method [OF valid fare price pm [symmetric] False total fresh] .
    with fields False total show ?thesis by simp
  qed
qed

theorem issue_creates_trip_witness:
  "\<exists>t s'. createTrip 7 two_by_balance 500 600 ''TRIP-0A1B2C3D'' issue_store =
             (SuccessResponse 201 ''Trip created successfully'' (0, t), s')
     \<and> trips s' = [t] \<and> totalAmount t = dbl 60 \<and> status t = Created
     \<and> expiresAt t = 86400600 \<and> users s' 7 = Some (alice\<lparr>balance := dbl 40\<rparr>)"
proof -
  have valid: "createTripValidation two_by_balance = []"
    by (simp add: createTripValidation_def two_by_balance_def)
  have fare: "getFare (fares issue_store) (fromStation two_by_balance)
      (toStation two_by_balance) ''regular'' 500 = Some (two_hop_fares ! 0)"
    by (simp add: getFare_def getFare_query_def issue_store_def two_hop_fares_def
        two_by_balance_def)
  have price: "0 \<le> f_fare (two_hop_fares ! 0)"
    by (simp add: two_hop_fares_def number_eval)
  have usr: "users issue_store 7 = Some alice"
    by (simp add: issue_store_def)
  have pm: "''balance'' =
      (case b_paymentMethod two_by_balance of None \<Rightarrow> ''balance'' | Some m \<Rightarrow> m)"
    by (simp add: two_by_balance_def)
  have total: "total_of (two_hop_fares ! 0) (b_numberOfPassengers two_by_balance)
      = Some (dbl 60)"
    by (simp add: total_of_def two_hop_fares_def two_by_balance_def number_eval)
  have suff: "''balance'' = ''balance'' \<longrightarrow> finite_number (balance alice)
      \<and> (\<forall>amt. total_of (two_hop_fares ! 0) (b_numberOfPassengers two_by_balance) = Some amt
            \<longrightarrow> amt \<le> balance alice)"
    by (simp add: total alice_def number_eval)
  have fresh: "''TRIP-0A1B2C3D'' \<notin> set (map tripCode (trips issue_store))"
    by (simp add: issue_store_def)
  have sub: "js_sub (balance alice) (dbl 60) = Some (dbl 40)"
    by (simp add: alice_def number_eval)
  from issue_creates_trip [OF valid fare price usr pm suff fresh, of 600]
  obtain t s' where
    "createTrip 7 two_by_balance 500 600 ''TRIP-0A1B2C3D'' issue_store =
       (SuccessResponse 201 ''Trip created successfully'' (length (trips issue_store), t), s')"
    and "trips s' = trips issue_store @ [t]"
    and "totalAmount t = dbl 60"
    and "status t = Created" and "expiresAt t = 600 + 86400000"
    and "users s' = (users issue_store)(7 \<mapsto> alice\<lparr>balance := dbl 40\<rparr>)"
    by (auto simp: total sub)
  then show ?thesis
    by (simp add: issue_store_def)
qed

text \<open>
  C3, as stated: Issue paid from a balance below fare times passengers fails and leaves
  the store unchanged. This fails in double arithmetic: the fare is the Number
  \<^verbatim>\<open>0.7\<close>, Erin asks for three passengers, and her balance is the Number
  \<^verbatim>\<open>2.0999999999999996\<close>, which is below three times the fare. The product
  \<^verbatim>\<open>0.7 * 3\<close> is rounded down to her balance, so the test \<^verbatim>\<open>user.balance < totalAmount\<close>
  is false: the request is answered 201, the trip is stored and her balance becomes 0.
\<close>

theorem issue_insufficient_counterexample:
  "rational_of (f_fare cheap_fare) = Some (3152519739159347 / 4503599627370496)
   \<and> rational_of (balance erin) = Some (1182194902184755 / 562949953421312)
   \<and> (1182194902184755 / 562949953421312 :: rat) < 3152519739159347 / 4503599627370496 * 3
   \<and> createTrip 11 three_by_balance 500 600 ''TRIP-0A1B2C3D'' erin_store =
       (SuccessResponse 201 ''Trip created successfully''
          (0, new_trip 11 1 2 (f_fare cheap_fare) 3 (balance erin) ''balance''
                ''TRIP-0A1B2C3D'' 600),
        erin_store\<lparr>trips := [new_trip 11 1 2 (f_fare cheap_fare) 3 (balance erin) ''balance''
                                 ''TRIP-0A1B2C3D'' 600],
          users := [11 \<mapsto> erin\<lparr>balance := 0\<rparr>]\<rparr>)"
proof -
  have p: "f_fare cheap_fare = dbl (3152519739159347 / 4503599627370496)"
    unfolding cheap_fare_def by (simp only: fare.simps dbl_7_10)
  have e: "balance erin = dbl (1182194902184755 / 562949953421312)"
    unfolding erin_def by (simp only: user.simps dbl_21_10)
  have valid: "createTripValidation three_by_balance = []"
    by (simp add: createTripValidation_def three_by_balance_def)
  have fare: "getFare (fares erin_store) (fromStation three_by_balance)
      (toStation three_by_balance) ''regular'' 500 = Some cheap_fare"
    by (simp add: getFare_def getFare_query_def erin_store_def cheap_fare_def
        three_by_balance_def)
  have price: "0 \<le> f_fare cheap_fare"
    unfolding p by (rule dbl_nonneg) simp
  have usr: "users erin_store 11 = Some erin"
    by (simp add: erin_store_def)
  have pm: "(case b_paymentMethod three_by_balance of None \<Rightarrow> ''balance'' | Some m \<Rightarrow> m)
      = ''balance''"
    by (simp add: three_by_balance_def)
  have "js_mul (dbl (3152519739159347 / 4503599627370496)) (dbl 3)
      = Some (dbl (3152519739159347 / 4503599627370496 * 3))"
    by (rule js_mul_dbl) (rule is_double_7_10, simp add: is_double_numeral)
  then have "js_mul (f_fare cheap_fare) (dbl 3) = Some (balance erin)"
    by (simp only: p e dbl_7_10_times_3)
  then have total: "total_of cheap_fare (b_numberOfPassengers three_by_balance)
      = Some (balance erin)"
    by (simp add: total_of_def three_by_balance_def)
  have fin: "finite_number (balance erin)"
    unfolding e by (rule finite_dbl) (rule is_double_21_10)
  then have sub: "js_sub (balance erin) (balance erin) = Some 0" by (rule js_sub_self)
  have fresh: "''TRIP-0A1B2C3D'' \<notin> set (map tripCode (trips erin_store))"
    by (simp add: erin_store_def)
  have "createTrip 11 three_by_balance 500 600 ''TRIP-0A1B2C3D'' erin_store =
       (SuccessResponse 201 ''Trip created successfully''
          (0, new_trip 11 1 2 (f_fare cheap_fare) 3 (balance erin) ''balance''
                ''TRIP-0A1B2C3D'' 600),
        erin_store\<lparr>trips := [new_trip 11 1 2 (f_fare cheap_fare) 3 (balance erin) ''balance''
                                 ''TRIP-0A1B2C3D'' 600],
          users := [11 \<mapsto> erin\<lparr>balance := 0\<rparr>]\<rparr>)"
    using createTrip_from_balance [OF valid fare price usr pm total order_refl sub fresh,
        of 600]
    by (simp add: erin_store_def three_by_balance_def)
  moreover have "rational_of (f_fare cheap_fare)
      = Some (3152519739159347 / 4503599627370496)"
    unfolding p by (rule rational_of_dbl) (rule is_double_7_10)
  moreover have "rational_of (balance erin) = Some (1182194902184755 / 562949953421312)"
    unfolding e by (rule rational_of_dbl) (rule is_double_21_10)
  moreover have "(1182194902184755 / 562949953421312 :: rat)
      < 3152519739159347 / 4503599627370496 * 3"
    by simp
  ultimately show ?thesis by blast
qed

text \<open>
  C3, amended: for a valid request paid from the balance (the method \<^verbatim>\<open>'balance'\<close>,
  given or by default), a fare that \<^verbatim>\<open>getFare\<close> finds and a stored user, the handler
  answers 400 \<^verbatim>\<open>Insufficient balance\<close>, with the store unchanged (no trip is created and
  no balance moves), when the balance is below the total that the handler computes,
  the product of price and passengers rounded to a double; and it gives that answer in
  no other case.
\<close>

theorem issue_insufficient:
  assumes valid: "createTripValidation b = []"
    and fare: "getFare (fares s) (fromStation b) (toStation b) ''regular'' tq = Some f"
    and usr: "users s uid = Some u"
    and pm: "b_paymentMethod b = None \<or> b_paymentMethod b = Some ''balance''"
  shows "((\<exists>amt. total_of f (b_numberOfPassengers b) = Some amt \<and> balance u < amt) \<longrightarrow>
           createTrip uid b tq tc code s
             = (ErrorResponse 400 (Text ''Insufficient balance''), s))
       \<and> (fst (createTrip uid b tq tc code s) = ErrorResponse 400 (Text ''Insufficient balance'')
           \<longrightarrow> (\<exists>amt. total_of f (b_numberOfPassengers b) = Some amt \<and> balance u < amt))"
proof -
  let ?total = "total_of f (b_numberOfPassengers b)"
  have m: "(case b_paymentMethod b of None \<Rightarrow> ''balance'' | Some m \<Rightarrow> m) = ''balance''"
    using pm by auto
  have ins: "insufficient ''balance'' (findById_user s uid) ?total
      = Inr (js_less (Some (balance u)) ?total)"
    using usr
    by (simp add: insufficient_def findById_user_def hydrate_user_def selected_def)
  have less: "js_less (Some (balance u)) ?total
      \<longleftrightarrow> (\<exists>amt. ?total = Some amt \<and> balance u < amt)"
    by (cases ?total) (simp_all add: js_less_def)
  show ?thesis
  proof (cases "js_less (Some (balance u)) ?total")
    case True
    then have "createTrip uid b tq tc code s
        = (ErrorResponse 400 (Text ''Insufficient balance''), s)"
      using valid fare m ins by (simp add: createTrip_def Let_def)
    with True less show ?thesis by simp
  next
    case False
    then have "fst (createTrip uid b tq tc code s)
        \<noteq> ErrorResponse 400 (Text ''Insufficient balance'')"
      using valid fare m ins
      by (simp add: createTrip_def Let_def split: sum.splits prod.splits)
    with False less show ?thesis by blast
  qed
qed

theorem issue_insufficient_witness:
  "createTrip 7 (two_by_balance\<lparr>b_numberOfPassengers := 4\<rparr>) 500 600 ''TRIP-0A1B2C3D''
     issue_store = (ErrorResponse 400 (Text ''Insufficient balance''), issue_store)
   \<and> fst (createTrip 7 two_by_balance 500 600 ''TRIP-0A1B2C3D'' issue_store)
       \<noteq> ErrorResponse 400 (Text ''Insufficient balance'')
   \<and> createTrip 12 three_by_balance 500 600 ''TRIP-0A1B2C3D'' frank_store
       = (ErrorResponse 400 (Text ''Insufficient balance''), frank_store)
   \<and> rational_of (balance frank) = Some (5404319552844595 / 18014398509481984)
   \<and> total_of tenth_fare 3 = Some (dbl (1351079888211149 / 4503599627370496))"
proof -
  let ?b = "two_by_balance\<lparr>b_numberOfPassengers := 4\<rparr>"
  have valid: "createTripValidation ?b = []" "createTripValidation two_by_balance = []"
    "createTripValidation three_by_balance = []"
    by (simp_all add: createTripValidation_def two_by_balance_def three_by_balance_def)
  have fare: "getFare (fares issue_store) (fromStation ?b) (toStation ?b) ''regular'' 500
      = Some (two_hop_fares ! 0)"
    "getFare (fares issue_store) (fromStation two_by_balance) (toStation two_by_balance)
      ''regular'' 500 = Some (two_hop_fares ! 0)"
    by (simp_all add: getFare_def getFare_query_def issue_store_def two_hop_fares_def
        two_by_balance_def)
  have fare3: "getFare (fares frank_store) (fromStation three_by_balance)
      (toStation three_by_balance) ''regular'' 500 = Some tenth_fare"
    by (simp add: getFare_def getFare_query_def frank_store_def tenth_fare_def
        three_by_balance_def)
  have usr: "users issue_store 7 = Some alice" "users frank_store 12 = Some frank"
    by (simp_all add: issue_store_def frank_store_def)
  have pm: "b_paymentMethod ?b = None \<or> b_paymentMethod ?b = Some ''balance''"
    "b_paymentMethod two_by_balance = None
      \<or> b_paymentMethod two_by_balance = Some ''balance''"
    "b_paymentMethod three_by_balance = None
      \<or> b_paymentMethod three_by_balance = Some ''balance''"
    by (simp_all add: two_by_balance_def three_by_balance_def)
  have total: "total_of (two_hop_fares ! 0) 4 = Some (dbl 120)"
    "total_of (two_hop_fares ! 0) 2 = Some (dbl 60)"
    by (simp_all add: total_of_def two_hop_fares_def number_eval)
  have p: "f_fare tenth_fare = dbl (3602879701896397 / 36028797018963968)"
    unfolding tenth_fare_def by (simp only: fare.simps dbl_1_10)
  have "js_mul (dbl (3602879701896397 / 36028797018963968)) (dbl 3)
      = Some (dbl (3602879701896397 / 36028797018963968 * 3))"
    by (rule js_mul_dbl) (rule is_double_1_10, simp add: is_double_numeral)
  then have total3: "total_of tenth_fare 3
      = Some (dbl (1351079888211149 / 4503599627370496))"
    by (simp only: total_of_def p dbl_1_10_times_3 of_int_numeral)
  have n: "b_numberOfPassengers ?b = 4" "b_numberOfPassengers two_by_balance = 2"
    "b_numberOfPassengers three_by_balance = 3"
    by (simp_all add: two_by_balance_def three_by_balance_def)
  have less: "balance alice < dbl 120" "\<not> balance alice < dbl 60"
    by (simp_all add: alice_def number_eval)
  have f: "balance frank = dbl (5404319552844595 / 18014398509481984)"
    unfolding frank_def by (simp only: user.simps dbl_3_10)
  have less3: "balance frank < dbl (1351079888211149 / 4503599627370496)"
    unfolding f by (simp add: dbl_less_iff is_double_3_10 is_double_1_10_times_3)
  have r: "rational_of (balance frank) = Some (5404319552844595 / 18014398509481984)"
    unfolding f by (rule rational_of_dbl) (rule is_double_3_10)
  have a: "createTrip 7 ?b 500 600 ''TRIP-0A1B2C3D'' issue_store
      = (ErrorResponse 400 (Text ''Insufficient balance''), issue_store)"
    using issue_insufficient [OF valid(1) fare(1) usr(1) pm(1), of 600 "''TRIP-0A1B2C3D''"]
    unfolding n total by (simp add: less)
  have b: "fst (createTrip 7 two_by_balance 500 600 ''TRIP-0A1B2C3D'' issue_store)
       \<noteq> ErrorResponse 400 (Text ''Insufficient balance'')"
    using issue_insufficient [OF valid(2) fare(2) usr(1) pm(2), of 600 "''TRIP-0A1B2C3D''"]
    unfolding n total by (simp add: less)
  have c: "createTrip 12 three_by_balance 500 600 ''TRIP-0A1B2C3D'' frank_store
       = (ErrorResponse 400 (Text ''Insufficient balance''), frank_store)"
    using issue_insufficient [OF valid(3) fare3 usr(2) pm(3), of 600 "''TRIP-0A1B2C3D''"]
      less3
    unfolding n total3 by blast
  from a b c r total3 show ?thesis by blast
qed

text \<open>
  C10: for a valid request with the payment method \<^verbatim>\<open>'cash'\<close> or \<^verbatim>\<open>'card'\<close>, a fare that
  \<^verbatim>\<open>getFare\<close> finds (its price non-negative) and a fresh trip code, the handler answers
  201 whatever the stored users are: the balance is not read, the only change to the
  store is the new trip, so the balance, \<^verbatim>\<open>totalTrips\<close> and \<^verbatim>\<open>totalExpense\<close> of every user
  are unchanged, and the trip has \<^verbatim>\<open>paymentStatus\<close> \<^verbatim>\<open>'pending'\<close>. Its total amount is the
  product of price and passengers as a double.
\<close>

theorem issue_cash_card:
  assumes valid: "createTripValidation b = []"
    and fare: "getFare (fares s) (fromStation b) (toStation b) ''regular'' tq = Some f"
    and price: "0 \<le> f_fare f"
    and pm: "b_paymentMethod b = Some pm"
    and other: "pm = ''cash'' \<or> pm = ''card''"
    and fresh: "code \<notin> set (map tripCode (trips s))"
  shows "\<exists>t. createTrip uid b tq tc code s =
             (SuccessResponse 201 ''Trip created successfully'' (length (trips s), t),
              s\<lparr>trips := trips s @ [t]\<rparr>)
     \<and> paymentStatus t = Pending \<and> paymentMethod t = pm \<and> status t = Created
     \<and> total_of f (b_numberOfPassengers b) = Some (totalAmount t)"
proof -
  let ?n = "b_numberOfPassengers b"
  from other have nb: "pm \<noteq> ''balance''" by auto
  from valid have n: "1 \<le> ?n" "?n \<le> 10"
    by (auto simp: createTripValidation_Nil)
  from total_of_defined [OF n] obtain amt where total: "total_of f ?n = Some amt" ..
  let ?t = "new_trip uid (fromStation b) (toStation b) (f_fare f) ?n amt pm code tc"
  have m: "(case b_paymentMethod b of None \<Rightarrow> ''balance'' | Some m \<Rightarrow> m) = pm"
    by (simp add: pm)
  have "createTrip uid b tq tc code s =
      (SuccessResponse 201 ''Trip created successfully'' (length (trips s), ?t),
       s\<lparr>trips := trips s @ [?t]\<rparr>)"
    using createTrip_other_method [OF valid fare price m nb total fresh] .
  with total show ?thesis by (auto simp: new_trip_def)
qed

theorem issue_cash_card_witness:
  "\<exists>t. createTrip 8 four_by_cash 500 600 ''TRIP-0A1B2C3D'' issue_store =
          (SuccessResponse 201 ''Trip created successfully'' (0, t),
           issue_store\<lparr>trips := [t]\<rparr>)
     \<and> paymentStatus t = Pending \<and> totalAmount t = dbl 120
     \<and> users issue_store 8 = Some bob \<and> balance bob = 0"
proof -
  have valid: "createTripValidation four_by_cash = []"
    by (simp add: createTripValidation_def four_by_cash_def)
  have fare: "getFare (fares issue_store) (fromStation four_by_cash)
      (toStation four_by_cash) ''regular'' 500 = Some (two_hop_fares ! 0)"
    by (simp add: getFare_def getFare_query_def issue_store_def two_hop_fares_def
        four_by_cash_def)
  have price: "0 \<le> f_fare (two_hop_fares ! 0)"
    by (simp add: two_hop_fares_def number_eval)
  have pm: "b_paymentMethod four_by_cash = Some ''cash''"
    by (simp add: four_by_cash_def)
  have other: "''cash'' = ''cash'' \<or> ''cash'' = ''card''" by simp
  have fresh: "''TRIP-0A1B2C3D'' \<notin> set (map tripCode (trips issue_store))"
    by (simp add: issue_store_def)
  have total: "total_of (two_hop_fares ! 0) (b_numberOfPassengers four_by_cash)
      = Some (dbl 120)"
    by (simp add: total_of_def two_hop_fares_def four_by_cash_def number_eval)
  from issue_cash_card [OF valid fare price pm other fresh, of 8 600]
  obtain t where
    "createTrip 8 four_by_cash 500 600 ''TRIP-0A1B2C3D'' issue_store =
       (SuccessResponse 201 ''Trip created successfully'' (length (trips issue_store), t),
        issue_store\<lparr>trips := trips issue_store @ [t]\<rparr>)"
    and "paymentStatus t = Pending"
    and "totalAmount t = dbl 120"
    by (auto simp: total)
  then show ?thesis
    by (simp add: issue_store_def bob_def)
qed

subsection \<open>Redeem and complete\<close>

lemma find_enumerate_Some:
  "find (\<lambda>it. P (snd it)) (enumerate n xs) = Some (i, x) \<Longrightarrow>
     n \<le> i \<and> i - n < length xs \<and> xs ! (i - n) = x \<and> P x"
  by (auto simp: find_Some_iff nth_enumerate_eq)

lemma find_enumerate_None:
  "find (\<lambda>it. P (snd it)) (enumerate n xs) = None \<longleftrightarrow> (\<forall>x \<in> set xs. \<not> P x)"
proof -
  have "set xs = snd ` set (enumerate n xs)"
    by (metis map_snd_enumerate set_map)
  then show ?thesis by (auto simp: find_None_iff)
qed

lemma getValidTrip_SomeD:
  assumes "getValidTrip s code now = Some doc"
  shows "td_id doc < length (trips s) \<and> trips s ! td_id doc = td_trip doc
       \<and> getValidTrip_query code now (td_trip doc)
       \<and> td_user doc = map_option
           (hydrate_user (Some [''fullName'', ''phoneNumber'']) (t_user (td_trip doc)))
           (users s (t_user (td_trip doc)))"
  using assms find_enumerate_Some [of "getValidTrip_query code now" 0 "trips s"]
  by (auto simp: getValidTrip_def split: option.splits prod.splits)

lemma getValidTrip_None:
  "getValidTrip s code now = None \<longleftrightarrow>
     (\<forall>t \<in> set (trips s). \<not> getValidTrip_query code now t)"
  using find_enumerate_None [of "getValidTrip_query code now" 0 "trips s"]
  by (auto simp: getValidTrip_def split: option.splits prod.splits)

lemma save_user_trips: "save_user d s = Inr s' \<Longrightarrow> trips s' = trips s"
  by (auto simp: save_user_def split: list.splits if_splits option.splits)

lemma await_user_trips: "await_user e s = Inr (d, s') \<Longrightarrow> trips s' = trips s"
  by (auto simp: await_user_def split: effect.splits sum.splits dest: save_user_trips)

lemma depositMoney_trips: "trips (snd (depositMoney rt uid b s)) = trips s"
  by (auto simp: depositMoney_def split: list.splits option.splits sum.splits
      dest: await_user_trips)

lemma pay_trips: "pay pm usr amt s = Inr s' \<Longrightarrow> trips s' = trips s"
  by (cases usr; cases "await_user (deductBalance amt (the usr)) s")
     (auto simp: pay_def split: if_splits dest: await_user_trips)

lemma create_trip_trips: "create_trip t s = Inr (i, s') \<Longrightarrow> trips s' = trips s @ [t]"
  by (auto simp: create_trip_def split: option.splits if_splits)

lemma Trip_create_trips:
  "Trip_create uid a b price n total_amount pm code now s = Inr (i, s')
     \<Longrightarrow> \<exists>t. trips s' = trips s @ [t]"
  by (auto simp: Trip_create_def split: option.splits dest: create_trip_trips)

lemma createTrip_trips:
  "trips (snd (createTrip uid b tq tc code s)) = trips s
   \<or> (\<exists>t. trips (snd (createTrip uid b tq tc code s)) = trips s @ [t])"
  by (auto simp: createTrip_def Let_def
      split: list.splits option.splits sum.splits bool.splits
      dest!: Trip_create_trips pay_trips)

lemma createTrip_used: "used_at i s \<Longrightarrow> used_at i (snd (createTrip uid b tq tc code s))"
  using createTrip_trips [of uid b tq tc code s]
  by (auto simp: used_at_def nth_append)

lemma save_trip_used:
  assumes "used_at i s" and "save_trip j loaded new s = Inr s'"
    and "j = i \<longrightarrow> status new = status loaded \<or> status new = Used"
  shows "used_at i s'"
  using assms
  by (auto simp: save_trip_def used_at_def write_trip_def nth_list_update split: if_splits)

lemma useTrip_handler_used:
  assumes "used_at i s"
  shows "used_at i (snd (useTrip_handler code t0 t1 t2 t3 s))"
proof (cases "getValidTrip s code t0")
  case None
  with assms show ?thesis by (simp add: useTrip_handler_def)
next
  case (Some doc)
  note d = getValidTrip_SomeD [OF Some]
  show ?thesis
  proof (cases "await_trip (td_id doc) (td_trip doc) (useTrip t1 t2 t3 (td_trip doc)) s")
    case (Inl x)
    with Some assms show ?thesis by (simp add: useTrip_handler_def)
  next
    case (Inr p)
    obtain t' s1 where p: "p = (t', s1)" by (cases p)
    from Inr p have sv: "save_trip (td_id doc) (td_trip doc) t' s = Inr s1"
      and t': "status t' = Used"
      by (auto simp: await_trip_def useTrip_def split: if_splits sum.splits)
    have u1: "used_at i s1"
      using save_trip_used [OF assms sv] t' by simp
    show ?thesis
    proof (cases "td_user doc")
      case None
      with Some Inr p u1 show ?thesis by (simp add: useTrip_handler_def)
    next
      case (Some ud)
      show ?thesis
      proof (cases "await_user (updateTripStats (totalAmount t') ud) s1")
        case (Inl x)
        with \<open>getValidTrip s code t0 = Some doc\<close> Inr p Some u1 show ?thesis
          by (simp add: useTrip_handler_def)
      next
        case (Inr q)
        obtain ud' s2 where q: "q = (ud', s2)" by (cases q)
        from Inr q have "trips s2 = trips s1" by (auto dest: await_user_trips)
        with u1 have "used_at i s2" by (simp add: used_at_def)
        with \<open>getValidTrip s code t0 = Some doc\<close>
          \<open>await_trip (td_id doc) (td_trip doc) (useTrip t1 t2 t3 (td_trip doc)) s = Inr p\<close>
          p Some Inr q show ?thesis
          by (simp add: useTrip_handler_def)
      qed
    qed
  qed
qed

lemma completeJourney_handler_used:
  assumes "used_at i s"
  shows "used_at i (snd (completeJourney_handler uid j now s))"
proof (cases "findById_trip s j")
  case None
  with assms show ?thesis by (simp add: completeJourney_handler_def)
next
  case (Some t)
  show ?thesis
  proof (cases "await_trip j t (completeJourney now t) s")
    case (Inl x)
    with Some assms show ?thesis by (simp add: completeJourney_handler_def)
  next
    case (Inr p)
    obtain t' s1 where p: "p = (t', s1)" by (cases p)
    from Inr p have sv: "save_trip j t t' s = Inr s1" and t': "status t' = status t"
      by (auto simp: await_trip_def completeJourney_def split: if_splits sum.splits)
    have "used_at i s1"
      using save_trip_used [OF assms sv] t' by simp
    with Some Inr p assms show ?thesis by (simp add: completeJourney_handler_def)
  qed
qed

lemma depositMoney_used: "used_at i s \<Longrightarrow> used_at i (snd (depositMoney rt uid b s))"
  by (simp add: used_at_def depositMoney_trips)

lemma handle_used: "used_at i s \<Longrightarrow> used_at i (handle rt r s)"
  by (cases r)
     (simp_all add: createTrip_used useTrip_handler_used completeJourney_handler_used
        depositMoney_used)

lemma run_used: "used_at i s \<Longrightarrow> used_at i (run rt rs s)"
  by (induction rs arbitrary: s) (simp_all add: handle_used)

lemma updateTripStats_projected:
  "await_user (updateTripStats a (hydrate_user (Some [''fullName'', ''phoneNumber'']) i u)) s
     = Inl (ValidationError ''totalTrips'')"
  by (simp add: updateTripStats_def hydrate_user_def selected_def js_plus_def
      set_totalTrips_def set_totalExpense_def await_user_def save_user_def Let_def)

lemma updateTripStats_loaded:
  assumes "users s i = Some u"
    and "js_add (totalTrips u) (dbl 1) = Some tt"
    and "js_add (totalExpense u) a = Some te"
  shows "map_sum id snd (await_user (updateTripStats a (hydrate_user None i u)) s)
     = Inr (s\<lparr>users := (users s)(i \<mapsto> u\<lparr>totalTrips := tt, totalExpense := te\<rparr>)\<rparr>)"
proof -
  have same: "(users s)(i \<mapsto> u) = users s" using assms(1) by (rule map_upd_triv)
  have keep: "tt = totalTrips u \<Longrightarrow> u\<lparr>totalTrips := tt, totalExpense := x\<rparr>
      = u\<lparr>totalExpense := x\<rparr>" for x
    by (cases u) simp
  have keep2: "te = totalExpense u \<Longrightarrow> u\<lparr>totalTrips := x, totalExpense := te\<rparr>
      = u\<lparr>totalTrips := x\<rparr>" for x
    by (cases u) simp
  show ?thesis
    using assms
    by (cases "tt = totalTrips u"; cases "te = totalExpense u")
       (simp_all add: updateTripStats_def hydrate_user_def selected_def js_plus_def
          set_totalTrips_def set_totalExpense_def await_user_def save_user_def Let_def
          write_user_def js_less_def same keep keep2)
qed

lemma redeem_marks_used_without_stats:
  assumes found: "getValidTrip s code t0 = Some doc"
    and live: "\<not> expiresAt (td_trip doc) < t1"
    and owner: "users s (t_user (td_trip doc)) = Some u"
  shows "fst (useTrip_handler code t0 t1 t2 t3 s)
           = ErrorResponse 400 (MessageOf (ValidationError ''totalTrips''))
       \<and> users (snd (useTrip_handler code t0 t1 t2 t3 s)) = users s
       \<and> status (trips (snd (useTrip_handler code t0 t1 t2 t3 s)) ! td_id doc) = Used"
proof -
  note d = getValidTrip_SomeD [OF found]
  let ?t = "td_trip doc"
  let ?t' = "?t\<lparr>status := Used, usedAt := Some t2, journeyStartTime := Some t3\<rparr>"
  let ?s1 = "s\<lparr>trips := (trips s)[td_id doc := write_trip ?t ?t' (trips s ! td_id doc)]\<rparr>"
  from d have cr: "status ?t = Created" by (simp add: getValidTrip_query_def)
  have ne: "?t' \<noteq> ?t"
  proof
    assume "?t' = ?t"
    then have "status ?t' = status ?t" by (rule arg_cong)
    with cr show False by simp
  qed
  have aw: "await_trip (td_id doc) ?t (useTrip t1 t2 t3 ?t) s = Inr (?t', ?s1)"
    using cr live d ne by (simp add: await_trip_def useTrip_def save_trip_def)
  have "useTrip_handler code t0 t1 t2 t3 s
      = (ErrorResponse 400 (MessageOf (ValidationError ''totalTrips'')), ?s1)"
    using found aw d owner
    by (simp add: useTrip_handler_def updateTripStats_projected)
  moreover have "status (trips ?s1 ! td_id doc) = Used"
    using d cr by (simp add: write_trip_def)
  ultimately show ?thesis by simp
qed

text \<open>
  C4 says that a successful redemption raises \<^verbatim>\<open>totalTrips\<close> of the owner by 1 and
  \<^verbatim>\<open>totalExpense\<close> by \<^verbatim>\<open>totalAmount\<close>. The method \<^verbatim>\<open>updateTripStats\<close> does so on a user
  that is fully loaded (\<open>updateTripStats_loaded\<close>), but the handler calls it on
  \<^verbatim>\<open>trip.user\<close> as \<^verbatim>\<open>getValidTrip\<close> populated it, with \<^verbatim>\<open>fullName\<close> and \<^verbatim>\<open>phoneNumber\<close>
  only: \<^verbatim>\<open>this.totalTrips += 1\<close> is \<^verbatim>\<open>undefined + 1\<close>, the save is rejected, and the
  handler answers 400 after the trip was saved as used
  (\<open>redeem_marks_used_without_stats\<close>). Here for Alice's trip: the answer is 400, the
  trip is stored as used with \<^verbatim>\<open>usedAt\<close> and \<^verbatim>\<open>journeyStartTime\<close> set, and the users are
  as before, Alice with \<^verbatim>\<open>totalTrips\<close> 0 and \<^verbatim>\<open>totalExpense\<close> 0.
\<close>

theorem redeem_stats_rejected:
  "useTrip_handler ''TRIP-0A1B2C3D'' 1000 1001 1002 1003 redeem_store
     = (ErrorResponse 400 (MessageOf (ValidationError ''totalTrips'')),
        redeem_store\<lparr>trips := [used_trip]\<rparr>)
   \<and> users redeem_store 7 = Some (alice\<lparr>balance := dbl 40\<rparr>)
   \<and> totalTrips alice = 0 \<and> totalExpense alice = 0"
  by (simp add: useTrip_handler_def getValidTrip_def getValidTrip_query_def redeem_store_def
      alice_trip_def new_trip_def enumerate_eq_zip useTrip_def await_trip_def save_trip_def
      write_trip_def updateTripStats_projected used_trip_def alice_def)

lemma redeem_expired_fails:
  assumes "\<forall>t \<in> set (trips s). tripCode t = code \<longrightarrow> expiresAt t \<le> t0"
  shows "useTrip_handler code t0 t1 t2 t3 s
           = (ErrorResponse 404 (Text ''Invalid or expired trip code''), s)"
proof -
  have "getValidTrip s code t0 = None"
    using assms by (auto simp: getValidTrip_None getValidTrip_query_def)
  then show ?thesis by (simp add: useTrip_handler_def)
qed

text \<open>
  C5 says that redeeming a trip after its \<^verbatim>\<open>expiresAt\<close> fails, stores the status
  \<^verbatim>\<open>'expired'\<close> and keeps failing. The redemption fails and keeps failing
  (\<open>redeem_expired_fails\<close> holds at every later clock reading, the store being
  unchanged), but the status \<^verbatim>\<open>'expired'\<close> is never stored. Alice's trip expires at
  86400600. Redeemed at 86400601 the lookup finds nothing: 404 and the same store.
  Looked up at 86400599 and used at 86400601, the method sets \<^verbatim>\<open>'expired'\<close> on the
  document in memory and throws before \<^verbatim>\<open>save()\<close>: 400 and the same store. The stored
  status stays \<^verbatim>\<open>'created'\<close>.
\<close>

theorem redeem_expired_not_persisted:
  "useTrip_handler ''TRIP-0A1B2C3D'' 86400601 86400601 86400601 86400601 redeem_store
     = (ErrorResponse 404 (Text ''Invalid or expired trip code''), redeem_store)
   \<and> useTrip_handler ''TRIP-0A1B2C3D'' 86400599 86400601 86400601 86400601 redeem_store
     = (ErrorResponse 400 (MessageOf (Error ''Trip has expired'')), redeem_store)
   \<and> useTrip 86400601 86400601 86400601 alice_trip
     = Throws (Error ''Trip has expired'') (alice_trip\<lparr>status := Expired\<rparr>)
   \<and> status (trips redeem_store ! 0) = Created"
  by (simp add: useTrip_handler_def getValidTrip_def getValidTrip_query_def redeem_store_def
      alice_trip_def new_trip_def enumerate_eq_zip useTrip_def await_trip_def)

text \<open>
  C6, as stated: completing a trip whose status is not \<^verbatim>\<open>'used'\<close> fails with 400. This
  fails when the requester is not the owner: Bob (id 8) completing Alice's trip, which
  is still \<^verbatim>\<open>'created'\<close>, is answered 403, since ownership is tested first.
\<close>

theorem complete_created_by_stranger_counterexample:
  "status (trips redeem_store ! 0) \<noteq> Used
   \<and> completeJourney_handler 8 0 5000 redeem_store
       = (ErrorResponse 403 (Text ''Not authorized''), redeem_store)"
  by (simp add: completeJourney_handler_def findById_trip_def redeem_store_def alice_trip_def
      new_trip_def)

lemma status_update_same:
  "status t = st \<Longrightarrow> t\<lparr>status := st, journeyEndTime := x\<rparr> = t\<lparr>journeyEndTime := x\<rparr>"
  by (cases t) simp

lemma completeJourney_saved:
  assumes "i < length (trips s)" and "status (trips s ! i) = Used"
  shows "await_trip i (trips s ! i) (completeJourney now (trips s ! i)) s
     = Inr ((trips s ! i)\<lparr>journeyEndTime := Some now\<rparr>,
            s\<lparr>trips := (trips s)[i := (trips s ! i)\<lparr>journeyEndTime := Some now\<rparr>]\<rparr>)"
proof (cases "(trips s ! i)\<lparr>journeyEndTime := Some now\<rparr> = trips s ! i")
  case True
  then show ?thesis
    using assms by (simp add: await_trip_def completeJourney_def save_trip_def)
next
  case False
  have "journeyEndTime (trips s ! i) \<noteq> Some now"
  proof
    assume "journeyEndTime (trips s ! i) = Some now"
    then have "(trips s ! i)\<lparr>journeyEndTime := Some now\<rparr> = trips s ! i"
      by (cases "trips s ! i") simp
    with False show False by simp
  qed
  with False show ?thesis
    using assms
    by (simp add: await_trip_def completeJourney_def save_trip_def write_trip_def
        status_update_same)
qed

text \<open>
  C6, amended: on a stored trip, a requester who is not the owner is answered 403
  \<^verbatim>\<open>Not authorized\<close> whatever the status; the owner is answered 400 when the status is
  not \<^verbatim>\<open>'used'\<close>; in both cases the store is unchanged. Otherwise \<^verbatim>\<open>journeyEndTime\<close> is
  set to the clock reading, nothing else changes, and after any further sequence of
  requests the status of the trip is still \<^verbatim>\<open>'used'\<close>.
\<close>

theorem complete_journey_order:
  assumes "i < length (trips s)"
  shows "(t_user (trips s ! i) \<noteq> uid \<longrightarrow>
            completeJourney_handler uid i now s
              = (ErrorResponse 403 (Text ''Not authorized''), s))
   \<and> (t_user (trips s ! i) = uid \<and> status (trips s ! i) \<noteq> Used \<longrightarrow>
            completeJourney_handler uid i now s
              = (ErrorResponse 400 (MessageOf (Error
                   (''Journey cannot be completed. Trip status: ''
                      @ status_name (status (trips s ! i))))), s))
   \<and> (t_user (trips s ! i) = uid \<and> status (trips s ! i) = Used \<longrightarrow>
            completeJourney_handler uid i now s
              = (SuccessResponse 200 ''Journey completed successfully''
                   ((trips s ! i)\<lparr>journeyEndTime := Some now\<rparr>),
                 s\<lparr>trips := (trips s)[i := (trips s ! i)\<lparr>journeyEndTime := Some now\<rparr>]\<rparr>)
            \<and> (\<forall>rt rs. status (trips (run rt rs (snd (completeJourney_handler uid i now s))) ! i)
                       = Used))"
proof (intro conjI impI)
  assume "t_user (trips s ! i) \<noteq> uid"
  with assms show "completeJourney_handler uid i now s
      = (ErrorResponse 403 (Text ''Not authorized''), s)"
    by (simp add: completeJourney_handler_def findById_trip_def)
next
  assume "t_user (trips s ! i) = uid \<and> status (trips s ! i) \<noteq> Used"
  with assms show "completeJourney_handler uid i now s
      = (ErrorResponse 400 (MessageOf (Error
           (''Journey cannot be completed. Trip status: ''
              @ status_name (status (trips s ! i))))), s)"
    by (simp add: completeJourney_handler_def findById_trip_def await_trip_def
        completeJourney_def)
next
  assume a: "t_user (trips s ! i) = uid \<and> status (trips s ! i) = Used"
  with assms completeJourney_saved [OF assms, of now]
  show "completeJourney_handler uid i now s
      = (SuccessResponse 200 ''Journey completed successfully''
           ((trips s ! i)\<lparr>journeyEndTime := Some now\<rparr>),
         s\<lparr>trips := (trips s)[i := (trips s ! i)\<lparr>journeyEndTime := Some now\<rparr>]\<rparr>)"
    by (simp add: completeJourney_handler_def findById_trip_def)
next
  assume a: "t_user (trips s ! i) = uid \<and> status (trips s ! i) = Used"
  with assms have "used_at i s" by (simp add: used_at_def)
  then have "used_at i (snd (completeJourney_handler uid i now s))"
    by (rule completeJourney_handler_used)
  then have "\<And>rt rs. used_at i (run rt rs (snd (completeJourney_handler uid i now s)))"
    by (rule run_used)
  then show "\<forall>rt rs. status (trips (run rt rs (snd (completeJourney_handler uid i now s))) ! i)
      = Used"
    by (simp add: used_at_def)
qed

theorem complete_journey_order_witness:
  "completeJourney_handler 8 0 5000 travel_store
     = (ErrorResponse 403 (Text ''Not authorized''), travel_store)
   \<and> completeJourney_handler 7 0 5000 redeem_store
     = (ErrorResponse 400
          (MessageOf (Error ''Journey cannot be completed. Trip status: created'')),
        redeem_store)
   \<and> completeJourney_handler 7 0 5000 travel_store
     = (SuccessResponse 200 ''Journey completed successfully''
          (used_trip\<lparr>journeyEndTime := Some 5000\<rparr>),
        travel_store\<lparr>trips := [used_trip\<lparr>journeyEndTime := Some 5000\<rparr>]\<rparr>)
   \<and> status (trips (run example_runtime [Redeem ''TRIP-0A1B2C3D'' 6000 6000 6000 6000,
                   Complete 7 0 7000, DepositMoney 7 (deposit_of 50)]
                 (snd (completeJourney_handler 7 0 5000 travel_store))) ! 0) = Used"
proof -
  have l1: "0 < length (trips travel_store)"
    by (simp add: travel_store_def)
  have l2: "0 < length (trips redeem_store)"
    by (simp add: redeem_store_def)
  have t1: "trips travel_store ! 0 = used_trip"
    by (simp add: travel_store_def)
  have f1: "t_user (trips travel_store ! 0) \<noteq> 8"
    by (simp add: travel_store_def used_trip_def alice_trip_def new_trip_def)
  have f2: "t_user (trips redeem_store ! 0) = 7 \<and> status (trips redeem_store ! 0) \<noteq> Used"
    by (simp add: redeem_store_def alice_trip_def new_trip_def)
  have n2: "status_name (status (trips redeem_store ! 0)) = ''created''"
    by (simp add: redeem_store_def alice_trip_def new_trip_def)
  have f3: "t_user (trips travel_store ! 0) = 7 \<and> status (trips travel_store ! 0) = Used"
    by (simp add: travel_store_def used_trip_def alice_trip_def new_trip_def)
  have a: "completeJourney_handler 8 0 5000 travel_store
      = (ErrorResponse 403 (Text ''Not authorized''), travel_store)"
    using complete_journey_order [OF l1, of 8 5000] f1 by blast
  have b: "completeJourney_handler 7 0 5000 redeem_store
      = (ErrorResponse 400
           (MessageOf (Error ''Journey cannot be completed. Trip status: created'')),
         redeem_store)"
    using complete_journey_order [OF l2, of 7 5000] f2 n2 by simp
  have c: "completeJourney_handler 7 0 5000 travel_store
      = (SuccessResponse 200 ''Journey completed successfully''
           (used_trip\<lparr>journeyEndTime := Some 5000\<rparr>),
         travel_store\<lparr>trips := [used_trip\<lparr>journeyEndTime := Some 5000\<rparr>]\<rparr>)"
    using complete_journey_order [OF l1, of 7 5000] f3 t1 by (simp add: travel_store_def)
  have "\<forall>rt rs. status (trips (run rt rs
      (snd (completeJourney_handler 7 0 5000 travel_store))) ! 0) = Used"
    using complete_journey_order [OF l1, of 7 5000] f3 by blast
  then have d: "status (trips (run example_runtime
      [Redeem ''TRIP-0A1B2C3D'' 6000 6000 6000 6000, Complete 7 0 7000,
       DepositMoney 7 (deposit_of 50)]
      (snd (completeJourney_handler 7 0 5000 travel_store))) ! 0) = Used"
    by blast
  from a b c d show ?thesis by blast
qed

subsection \<open>Concurrent Issue requests\<close>

lemma Trip_create_users:
  "Trip_create uid a b price n total_amount pm code now s = Inr (i, s') \<Longrightarrow> users s' = users s"
  by (auto simp: Trip_create_def create_trip_def split: option.splits if_splits)

lemma Trip_create_nonneg:
  "nonneg_balances s \<Longrightarrow> Trip_create uid a b price n total_amount pm code now s = Inr (i, s')
     \<Longrightarrow> nonneg_balances s'"
  by (auto simp: nonneg_balances_def dest: Trip_create_users)

lemma pay_nonneg: "nonneg_balances s \<Longrightarrow> pay pm usr amt s = Inr s' \<Longrightarrow> nonneg_balances s'"
  by (cases usr; cases "await_user (deductBalance amt (the usr)) s")
     (auto simp: pay_def split: if_splits dest: await_user_nonneg)

lemma issue_step_nonneg:
  "nonneg_balances s \<Longrightarrow> nonneg_balances (snd (issue_step r a s))"
  by (cases a)
     (auto simp: Let_def split: list.splits option.splits sum.splits bool.splits
        dest: Trip_create_nonneg pay_nonneg)

lemma race_nonneg:
  "nonneg_balances (store_of c) \<Longrightarrow> nonneg_balances (store_of (race ra rb sch c))"
proof (induction sch arbitrary: c)
  case Nil
  then show ?case by simp
next
  case (Cons first sch)
  obtain a b s where c: "c = (a, b, s)" by (cases c)
  show ?case
  proof (cases first)
    case True
    obtain a' s' where st: "issue_step ra a s = (a', s')" by (cases "issue_step ra a s")
    with Cons.prems c issue_step_nonneg [of s ra a] have "nonneg_balances (store_of (a', b, s'))"
      by (simp add: store_of_def)
    then have "nonneg_balances (store_of (race ra rb sch (a', b, s')))"
      by (rule Cons.IH)
    with True c st show ?thesis by simp
  next
    case False
    obtain b' s' where st: "issue_step rb b s = (b', s')" by (cases "issue_step rb b s")
    with Cons.prems c issue_step_nonneg [of s rb b] have "nonneg_balances (store_of (a, b', s'))"
      by (simp add: store_of_def)
    then have "nonneg_balances (store_of (race ra rb sch (a, b', s')))"
      by (rule Cons.IH)
    with False c st show ?thesis by simp
  qed
qed

text \<open>A request that takes its four steps alone does what \<^verbatim>\<open>createTrip\<close> does.\<close>

lemma issue_alone:
  "issue_steps 4 r (Start, s)
     = (Done (fst (createTrip (r_uid r) (r_body r) (r_tq r) (r_tc r) (r_code r) s)),
        snd (createTrip (r_uid r) (r_body r) (r_tq r) (r_tc r) (r_code r) s))"
  by (simp add: numeral_eq_Suc createTrip_def Let_def r_method_def r_total_def
      split: list.splits option.splits sum.splits bool.splits prod.splits)

text \<open>
  C9, as stated: some interleaving of two concurrent Issue requests leaves a negative
  balance. This fails: whatever the two requests, the schedule and the store, if no
  stored balance is negative at the start then none is negative at the end, since
  \<^verbatim>\<open>save()\<close> validates the balance it writes.
\<close>

theorem concurrent_issue_never_negative_counterexample:
  "\<not> (\<exists>ra rb sch s. nonneg_balances s
        \<and> \<not> nonneg_balances (store_of (race ra rb sch (Start, Start, s))))"
  using race_nonneg [of "(Start, Start, _)"] by (simp add: store_of_def)

text \<open>
  The debit through a document that was loaded earlier: the difference is taken from
  the balance that was loaded, and it is written over whatever is stored by then,
  unless it equals the balance that was loaded, in which case nothing is written.
\<close>

lemma pay_stale:
  assumes "users s uid = Some v" and "amt \<le> balance u"
    and "js_sub (balance u) amt = Some nb"
  shows "pay ''balance'' (Some (hydrate_user None uid u)) (Some amt) s =
           Inr (if nb = balance u then s
                else s\<lparr>users := (users s)(uid \<mapsto> v\<lparr>balance := nb\<rparr>)\<rparr>)"
proof -
  from assms(2,3) have "0 \<le> nb" by (rule js_sub_nonneg)
  then have "\<not> nb < 0" by (simp only: not_less)
  moreover from assms(2) have "\<not> balance u < amt" by (simp only: not_less)
  ultimately show ?thesis
    using assms(1,3)
    by (simp add: pay_def hydrate_user_def selected_def deductBalance_def js_less_def
        js_minus_def set_balance_def await_user_def save_user_def write_user_def)
qed

text \<open>
  C9, amended: take two valid requests of one user, both paid from the balance, each
  for a fare that \<^verbatim>\<open>getFare\<close> finds and each covered by the finite balance on its own,
  with fresh and different trip codes. In the schedule where both load the user before
  either creates its trip, both are answered 201 and both trips are stored; each
  request subtracts its amount from the balance it loaded and saves the result, so the
  stored balance ends as the initial balance minus the amount of the second request
  alone (in double arithmetic): the debit of the first is overwritten. Only when the
  second difference equals the initial balance is nothing written by the second
  request, and the debit of the first stands. In every schedule the stored balances stay
  non-negative.
\<close>

theorem concurrent_issue_lost_update:
  assumes uid: "r_uid rb = r_uid ra"
    and valid_a: "createTripValidation (r_body ra) = []"
    and valid_b: "createTripValidation (r_body rb) = []"
    and pm_a: "r_method ra = ''balance''"
    and pm_b: "r_method rb = ''balance''"
    and fare_a: "getFare (fares s) (fromStation (r_body ra)) (toStation (r_body ra))
                   ''regular'' (r_tq ra) = Some fa"
    and fare_b: "getFare (fares s) (fromStation (r_body rb)) (toStation (r_body rb))
                   ''regular'' (r_tq rb) = Some fb"
    and price_a: "0 \<le> f_fare fa"
    and price_b: "0 \<le> f_fare fb"
    and usr: "users s (r_uid ra) = Some u"
    and fin: "finite_number (balance u)"
    and tot_a: "r_total ra fa = Some xa"
    and tot_b: "r_total rb fb = Some xb"
    and suff_a: "xa \<le> balance u"
    and suff_b: "xb \<le> balance u"
    and fresh_a: "r_code ra \<notin> set (map tripCode (trips s))"
    and fresh_b: "r_code rb \<notin> set (map tripCode (trips s))"
    and codes: "r_code rb \<noteq> r_code ra"
  shows "\<exists>ta tb s' da db. race ra rb both_read_first (Start, Start, s)
           = (Done (SuccessResponse 201 ''Trip created successfully'' (length (trips s), ta)),
              Done (SuccessResponse 201 ''Trip created successfully''
                      (Suc (length (trips s)), tb)), s')
       \<and> trips s' = trips s @ [ta, tb]
       \<and> totalAmount ta = xa \<and> totalAmount tb = xb
       \<and> js_sub (balance u) xa = Some da \<and> js_sub (balance u) xb = Some db
       \<and> users s' = (users s)(r_uid ra \<mapsto>
            u\<lparr>balance := if db = balance u then da else db\<rparr>)
       \<and> (\<forall>sch. nonneg_balances s \<longrightarrow>
             nonneg_balances (store_of (race ra rb sch (Start, Start, s))))"
proof -
  let ?uid = "r_uid ra"
  from js_sub_finite [OF fin] obtain da where da: "js_sub (balance u) xa = Some da" ..
  from js_sub_finite [OF fin] obtain db where db: "js_sub (balance u) xb = Some db" ..
  define doc where "doc = hydrate_user None ?uid u"
  define ta where "ta = new_trip ?uid (fromStation (r_body ra)) (toStation (r_body ra))
      (f_fare fa) (b_numberOfPassengers (r_body ra)) xa ''balance'' (r_code ra) (r_tc ra)"
  define tb where "tb = new_trip ?uid (fromStation (r_body rb)) (toStation (r_body rb))
      (f_fare fb) (b_numberOfPassengers (r_body rb)) xb ''balance'' (r_code rb) (r_tc rb)"
  define ua where "ua = u\<lparr>balance := da\<rparr>"
  define s1 where "s1 = s\<lparr>trips := trips s @ [ta]\<rparr>"
  define s2 where "s2 = s1\<lparr>users := (users s1)(?uid \<mapsto> ua)\<rparr>"
  define s3 where "s3 = s2\<lparr>trips := trips s2 @ [tb]\<rparr>"
  define s4 where "s4 = (if db = balance u then s3
      else s3\<lparr>users := (users s3)(?uid \<mapsto> ua\<lparr>balance := db\<rparr>)\<rparr>)"
  from valid_a have na: "1 \<le> b_numberOfPassengers (r_body ra)"
      "b_numberOfPassengers (r_body ra) \<le> 10"
    by (simp_all add: createTripValidation_Nil)
  from valid_b have nb: "1 \<le> b_numberOfPassengers (r_body rb)"
      "b_numberOfPassengers (r_body rb) \<le> 10"
    by (simp_all add: createTripValidation_Nil)
  have nna: "0 \<le> xa"
    using price_a na(1) tot_a [unfolded r_total_def] by (rule total_of_nonneg)
  have nnb: "0 \<le> xb"
    using price_b nb(1) tot_b [unfolded r_total_def] by (rule total_of_nonneg)
  have pmv: "''balance'' = ''balance'' \<or> ''balance'' = ''cash'' \<or> ''balance'' = ''card''"
    by simp
  have found: "findById_user s ?uid = Some doc"
    by (simp add: findById_user_def usr doc_def)
  have ins_a: "insufficient ''balance'' (Some doc) (Some xa) = Inr False"
    using suff_a
    by (simp add: insufficient_def doc_def hydrate_user_def selected_def js_less_def not_less)
  have ins_b: "insufficient ''balance'' (Some doc) (Some xb) = Inr False"
    using suff_b
    by (simp add: insufficient_def doc_def hydrate_user_def selected_def js_less_def not_less)
  have a1: "issue_step ra Start s = (GotFare fa, s)"
    using valid_a fare_a by simp
  have a2: "issue_step ra (GotFare fa) s = (GotUser fa (Some doc), s)"
    using found ins_a pm_a tot_a by (simp add: Let_def)
  have b1: "issue_step rb Start s = (GotFare fb, s)"
    using valid_b fare_b by simp
  have b2: "issue_step rb (GotFare fb) s = (GotUser fb (Some doc), s)"
    using found ins_b pm_b uid tot_b by (simp add: Let_def)
  have cr_a: "Trip_create ?uid (fromStation (r_body ra)) (toStation (r_body ra)) (f_fare fa)
      (b_numberOfPassengers (r_body ra)) (Some xa) ''balance'' (r_code ra) (r_tc ra) s
      = Inr (length (trips s), s1)"
    using create_trip_new [OF price_a na pmv fresh_a nna] by (simp add: ta_def s1_def)
  have a3: "issue_step ra (GotUser fa (Some doc)) s
      = (Inserted fa (Some doc) (length (trips s)) ta, s1)"
    using cr_a pm_a tot_a by (simp add: s1_def)
  have pay_a: "pay ''balance'' (Some doc) (Some xa) s1 = Inr s2"
    unfolding doc_def s2_def ua_def
    by (rule pay_balance) (simp_all add: s1_def usr suff_a da)
  have a4: "issue_step ra (Inserted fa (Some doc) (length (trips s)) ta) s1
      = (Done (SuccessResponse 201 ''Trip created successfully'' (length (trips s), ta)), s2)"
    using pay_a pm_a tot_a by simp
  have fresh_b2: "r_code rb \<notin> set (map tripCode (trips s2))"
    using fresh_b codes by (simp add: s2_def s1_def ta_def new_trip_def)
  have len2: "length (trips s2) = Suc (length (trips s))"
    by (simp add: s2_def s1_def)
  have cr_b: "Trip_create ?uid (fromStation (r_body rb)) (toStation (r_body rb)) (f_fare fb)
      (b_numberOfPassengers (r_body rb)) (Some xb) ''balance'' (r_code rb) (r_tc rb) s2
      = Inr (Suc (length (trips s)), s3)"
    using create_trip_new [OF price_b nb pmv fresh_b2 nnb] len2
    by (simp add: tb_def s3_def)
  have nth_b: "trips s3 ! Suc (length (trips s)) = tb"
    using len2 by (simp add: s3_def nth_append)
  have b3: "issue_step rb (GotUser fb (Some doc)) s2
      = (Inserted fb (Some doc) (Suc (length (trips s))) tb, s3)"
    using cr_b pm_b uid nth_b tot_b by simp
  have pay_b: "pay ''balance'' (Some doc) (Some xb) s3 = Inr s4"
    unfolding doc_def s4_def
    by (rule pay_stale) (simp_all add: s3_def s2_def suff_b db)
  have b4: "issue_step rb (Inserted fb (Some doc) (Suc (length (trips s))) tb) s3
      = (Done (SuccessResponse 201 ''Trip created successfully''
                 (Suc (length (trips s)), tb)), s4)"
    using pay_b pm_b tot_b by simp
  have run: "race ra rb both_read_first (Start, Start, s)
      = (Done (SuccessResponse 201 ''Trip created successfully'' (length (trips s), ta)),
         Done (SuccessResponse 201 ''Trip created successfully''
                 (Suc (length (trips s)), tb)), s4)"
    by (simp add: both_read_first_def a1 a2 b1 b2 a3 a4 b3 b4 del: issue_step.simps)
  have inv: "\<forall>sch. nonneg_balances s \<longrightarrow>
      nonneg_balances (store_of (race ra rb sch (Start, Start, s)))"
    using race_nonneg [of "(Start, Start, s)" ra rb] by (simp add: store_of_def)
  have "trips s4 = trips s @ [ta, tb]"
    by (simp add: s4_def s3_def s2_def s1_def)
  moreover have "totalAmount ta = xa \<and> totalAmount tb = xb"
    by (simp add: ta_def tb_def new_trip_def)
  moreover have "users s4 = (users s)(?uid \<mapsto>
      u\<lparr>balance := if db = balance u then da else db\<rparr>)"
    by (simp add: s4_def s3_def s2_def s1_def ua_def)
  ultimately show ?thesis using run inv da db by blast
qed

theorem concurrent_issue_lost_update_witness:
  "\<exists>ta tb s'. race first_request second_request both_read_first (Start, Start, issue_store)
       = (Done (SuccessResponse 201 ''Trip created successfully'' (0, ta)),
          Done (SuccessResponse 201 ''Trip created successfully'' (1, tb)), s')
     \<and> totalAmount ta = dbl 60 \<and> totalAmount tb = dbl 60 \<and> balance alice = dbl 100
     \<and> users s' 7 = Some (alice\<lparr>balance := dbl 40\<rparr>)
     \<and> nonneg_balances issue_store
     \<and> nonneg_balances (store_of (race first_request second_request
          [False, True, False, True] (Start, Start, issue_store)))"
proof -
  let ?f = "two_hop_fares ! 0"
  have uid: "r_uid second_request = r_uid first_request"
    by (simp add: first_request_def second_request_def)
  have valid_a: "createTripValidation (r_body first_request) = []"
    by (simp add: first_request_def createTripValidation_def two_by_balance_def)
  have valid_b: "createTripValidation (r_body second_request) = []"
    by (simp add: second_request_def createTripValidation_def two_by_balance_def)
  have pm_a: "r_method first_request = ''balance''"
    by (simp add: r_method_def first_request_def two_by_balance_def)
  have pm_b: "r_method second_request = ''balance''"
    by (simp add: r_method_def second_request_def two_by_balance_def)
  have fare_a: "getFare (fares issue_store) (fromStation (r_body first_request))
      (toStation (r_body first_request)) ''regular'' (r_tq first_request) = Some ?f"
    by (simp add: getFare_def getFare_query_def issue_store_def two_hop_fares_def
        first_request_def two_by_balance_def)
  have fare_b: "getFare (fares issue_store) (fromStation (r_body second_request))
      (toStation (r_body second_request)) ''regular'' (r_tq second_request) = Some ?f"
    by (simp add: getFare_def getFare_query_def issue_store_def two_hop_fares_def
        second_request_def two_by_balance_def)
  have price: "0 \<le> f_fare ?f"
    by (simp add: two_hop_fares_def number_eval)
  have usr: "users issue_store (r_uid first_request) = Some alice"
    by (simp add: issue_store_def first_request_def)
  have fin: "finite_number (balance alice)"
    by (simp add: alice_def number_eval)
  have tot_a: "r_total first_request ?f = Some (dbl 60)"
    and tot_b: "r_total second_request ?f = Some (dbl 60)"
    by (simp_all add: r_total_def total_of_def first_request_def second_request_def
        two_by_balance_def two_hop_fares_def number_eval)
  have suff: "dbl 60 \<le> balance alice"
    by (simp add: alice_def number_eval)
  have fresh_a: "r_code first_request \<notin> set (map tripCode (trips issue_store))"
    and fresh_b: "r_code second_request \<notin> set (map tripCode (trips issue_store))"
    by (simp_all add: issue_store_def)
  have codes: "r_code second_request \<noteq> r_code first_request"
    by (simp add: first_request_def second_request_def)
  have ok: "nonneg_balances issue_store"
    by (simp add: nonneg_balances_def issue_store_def alice_def bob_def number_eval)
  have sub: "js_sub (balance alice) (dbl 60) = Some (dbl 40)"
    by (simp add: alice_def number_eval)
  have ne: "dbl 40 \<noteq> balance alice"
    by (simp add: alice_def number_eval)
  from concurrent_issue_lost_update [OF uid valid_a valid_b pm_a pm_b fare_a fare_b price
      price usr fin tot_a tot_b suff suff fresh_a fresh_b codes]
  obtain ta tb s' da db where
    r: "race first_request second_request both_read_first (Start, Start, issue_store)
       = (Done (SuccessResponse 201 ''Trip created successfully''
                  (length (trips issue_store), ta)),
          Done (SuccessResponse 201 ''Trip created successfully''
                  (Suc (length (trips issue_store)), tb)), s')"
    and t: "totalAmount ta = dbl 60" "totalAmount tb = dbl 60"
    and d: "js_sub (balance alice) (dbl 60) = Some da"
      "js_sub (balance alice) (dbl 60) = Some db"
    and u: "users s' = (users issue_store)(r_uid first_request \<mapsto>
        alice\<lparr>balance := if db = balance alice then da else db\<rparr>)"
    and inv: "\<forall>sch. nonneg_balances issue_store \<longrightarrow> nonneg_balances
        (store_of (race first_request second_request sch (Start, Start, issue_store)))"
    by blast
  from d sub have dd: "da = dbl 40" "db = dbl 40" by simp_all
  from inv ok have "nonneg_balances
      (store_of (race first_request second_request [False, True, False, True]
         (Start, Start, issue_store)))"
    by blast
  moreover have "users s' 7 = Some (alice\<lparr>balance := dbl 40\<rparr>)"
    using u ne by (simp add: dd first_request_def)
  moreover have "length (trips issue_store) = 0"
    by (simp add: issue_store_def)
  moreover have "balance alice = dbl 100"
    by (simp add: alice_def)
  ultimately show ?thesis
    using r t ok by simp
qed

end
